theory Spec2Isabelle
  imports Complex_Main "HOL-Library.Char_ord" "HOL-Library.List_Lexorder" "HOL-Library.Multiset"
begin

section \<open>Kai Keeper: the domain logic of the gardening tracker\<close>

text \<open>
  The functions below are the ones of the application component \<^verbatim>\<open>KaiKeeperApp\<close>:
  \<^verbatim>\<open>logHarvest\<close>, \<^verbatim>\<open>toggleArchive\<close>, \<^verbatim>\<open>phaseFor\<close>, \<^verbatim>\<open>monthlyTotals\<close>,
  \<^verbatim>\<open>totalsByPlantType\<close>, \<^verbatim>\<open>exportJSON\<close>, \<^verbatim>\<open>importJSON\<close> and the catalogue's
  \<^verbatim>\<open>removeType\<close>. React state (\<^verbatim>\<open>useState\<close>) is passed explicitly: a setter call
  is a new value of the state.
\<close>

subsection \<open>Numbers\<close>

text \<open>
  A stored number (a field of a record, an amount) is a finite number and is modelled as a
  \<^typ>\<open>real\<close>. The result of an operation is a \<open>jsnum\<close>: a finite number,
  JavaScript's \<^verbatim>\<open>NaN\<close> or one of the two infinities. The sign of zero is not part of
  the model. The additions and subtractions of the reports round to the nearest double, as
  \<open>round64\<close> below says; the divisions and the sums of lengths of the estimator are
  taken exactly.
\<close>

datatype jsnum = NaN | NegInf | Num real | PosInf

text \<open>
  Rounding to binary64, to nearest and ties to even. The exponent \<open>e\<close> of \<open>x\<close> is the
  least one from \<open>- 1022\<close> (the subnormal numbers have it) with \<open>\<bar>x\<bar> < 2 powi (e + 1)\<close>; the
  doubles of that binade are the multiples of \<open>2 powi (e - 52)\<close>. A value that rounds to
  \<open>2 powi 1024\<close> or lies beyond overflows to an infinity.
\<close>

definition exponent :: "real \<Rightarrow> int option" where
  "exponent x = find (\<lambda>e. \<bar>x\<bar> < 2 powi (e + 1)) [- 1022..1023]"

definition roundHalfEven :: "real \<Rightarrow> int" where
  "roundHalfEven q =
     (let f = \<lfloor>q\<rfloor>
      in if q - of_int f < 1 / 2 then f
         else if 1 / 2 < q - of_int f then f + 1
         else if even f then f else f + 1)"

definition round64 :: "real \<Rightarrow> jsnum" where
  "round64 x =
     (if x = 0 then Num 0
      else
        (case exponent x of
           None \<Rightarrow> if 0 < x then PosInf else NegInf
         | Some e \<Rightarrow>
             (let ulp = 2 powi (e - 52);
                  y = of_int (roundHalfEven (x / ulp)) * ulp
              in if 2 powi 1024 \<le> \<bar>y\<bar> then (if 0 < x then PosInf else NegInf) else Num y)))"

text \<open>\<^verbatim>\<open>a + b\<close> and \<^verbatim>\<open>a - b\<close>.\<close>

fun js_add :: "jsnum \<Rightarrow> jsnum \<Rightarrow> jsnum" where
  "js_add NaN b = NaN"
| "js_add a NaN = NaN"
| "js_add PosInf NegInf = NaN"
| "js_add NegInf PosInf = NaN"
| "js_add PosInf b = PosInf"
| "js_add a PosInf = PosInf"
| "js_add NegInf b = NegInf"
| "js_add a NegInf = NegInf"
| "js_add (Num a) (Num b) = round64 (a + b)"

fun js_sub :: "jsnum \<Rightarrow> jsnum \<Rightarrow> jsnum" where
  "js_sub NaN b = NaN"
| "js_sub a NaN = NaN"
| "js_sub PosInf PosInf = NaN"
| "js_sub NegInf NegInf = NaN"
| "js_sub PosInf b = PosInf"
| "js_sub a PosInf = NegInf"
| "js_sub NegInf b = NegInf"
| "js_sub a NegInf = PosInf"
| "js_sub (Num a) (Num b) = round64 (a - b)"

text \<open>\<^verbatim>\<open>a >= b\<close>.\<close>

fun js_ge :: "jsnum \<Rightarrow> jsnum \<Rightarrow> bool" where
  "js_ge NaN b = False"
| "js_ge a NaN = False"
| "js_ge PosInf b = True"
| "js_ge a NegInf = True"
| "js_ge a PosInf = False"
| "js_ge NegInf b = False"
| "js_ge (Num a) (Num b) = (b \<le> a)"

text \<open>\<^verbatim>\<open>a / b\<close> on finite numbers: \<^verbatim>\<open>0 / 0\<close> is \<^verbatim>\<open>NaN\<close>, \<^verbatim>\<open>a / 0\<close> is an infinity.\<close>

definition js_div :: "real \<Rightarrow> real \<Rightarrow> jsnum" where
  "js_div a b =
     (if b \<noteq> 0 then Num (a / b)
      else if a = 0 then NaN
      else if 0 < a then PosInf else NegInf)"

text \<open>\<^verbatim>\<open>v * c\<close> for a finite \<open>c\<close>.\<close>

fun js_mul :: "jsnum \<Rightarrow> real \<Rightarrow> jsnum" where
  "js_mul NaN c = NaN"
| "js_mul (Num a) c = Num (a * c)"
| "js_mul PosInf c = (if c = 0 then NaN else if 0 < c then PosInf else NegInf)"
| "js_mul NegInf c = (if c = 0 then NaN else if 0 < c then NegInf else PosInf)"

text \<open>\<^verbatim>\<open>Math.max\<close> and \<^verbatim>\<open>Math.min\<close>: \<^verbatim>\<open>NaN\<close> if an argument is \<^verbatim>\<open>NaN\<close>.\<close>

fun Math_max :: "jsnum \<Rightarrow> jsnum \<Rightarrow> jsnum" where
  "Math_max NaN b = NaN"
| "Math_max a NaN = NaN"
| "Math_max PosInf b = PosInf"
| "Math_max a PosInf = PosInf"
| "Math_max NegInf b = b"
| "Math_max a NegInf = a"
| "Math_max (Num a) (Num b) = Num (max a b)"

fun Math_min :: "jsnum \<Rightarrow> jsnum \<Rightarrow> jsnum" where
  "Math_min NaN b = NaN"
| "Math_min a NaN = NaN"
| "Math_min NegInf b = NegInf"
| "Math_min a NegInf = NegInf"
| "Math_min PosInf b = b"
| "Math_min a PosInf = a"
| "Math_min (Num a) (Num b) = Num (min a b)"

text \<open>A percentage that is a number between 0 and 100.\<close>

definition in_0_100 :: "jsnum \<Rightarrow> bool" where
  "in_0_100 v = (case v of Num x \<Rightarrow> 0 \<le> x \<and> x \<le> 100 | _ \<Rightarrow> False)"

subsection \<open>Data model\<close>

datatype Unit = kg | count

record PlantType =
  id :: string
  name :: string
  germinationMinDays :: real
  germinationMaxDays :: real
  maturityDays :: real
  harvestWindowDays :: real
  defaultUnit :: Unit

record Planting =
  id :: string
  plantTypeId :: string
  plantedAt :: string
  location :: string
  quantityPlanted :: real
  "notes" :: string
  archived :: bool

record Harvest =
  id :: string
  plantingId :: string
  date :: string
  amount :: real
  unit :: Unit
  "notes" :: string

text \<open>The errors that the modelled code throws.\<close>

datatype error = SyntaxError | TypeError | RangeError

subsection \<open>Date helpers\<close>

text \<open>
  The \<^verbatim>\<open>Date\<close> object belongs to the host. What the date helpers take from it is a
  parameter of the model: \<open>dateMs iso\<close> is the time value of \<^verbatim>\<open>new Date(iso)\<close> in
  milliseconds, \<open>todayISO\<close> is today's date and \<open>addDays\<close> is the calendar arithmetic of
  the helper of that name (\<^verbatim>\<open>setDate\<close> in local time, then \<^verbatim>\<open>toISOString\<close>).
\<close>

record host =
  dateMs :: "string \<Rightarrow> int"
  todayISO :: string
  addDays :: "string \<Rightarrow> real \<Rightarrow> string"

definition daysBetween :: "host \<Rightarrow> string \<Rightarrow> string \<Rightarrow> int" where
  "daysBetween h fromISO toISODate =
     (let a = dateMs h fromISO; b = dateMs h toISODate
      in \<lfloor>real_of_int (b - a) / (24 * 3600 * 1000)\<rfloor>)"

subsection \<open>Derived maps\<close>

text \<open>
  \<^verbatim>\<open>plantTypeById\<close> is the plain object
  \<^verbatim>\<open>Object.fromEntries(plantTypes.map((p) => [p.id, p]))\<close>: of two entries with one id the
  later one stays. Reading \<^verbatim>\<open>plantTypeById[k]\<close> finds an own property, or else a member that
  the object inherits from \<^verbatim>\<open>Object.prototype\<close>, or else \<^verbatim>\<open>undefined\<close>. The inherited
  members are functions, and \<^verbatim>\<open>__proto__\<close> is \<^verbatim>\<open>Object.prototype\<close> itself: all are truthy
  and none has a field of a plant type. \<open>Object_prototype\<close> lists them with their property
  \<^verbatim>\<open>name\<close>, which a function has and \<^verbatim>\<open>Object.prototype\<close> has not.
\<close>

definition Object_prototype :: "(string \<times> string option) list" where
  "Object_prototype =
     [(''constructor'', Some ''Object''),
      (''__defineGetter__'', Some ''__defineGetter__''),
      (''__defineSetter__'', Some ''__defineSetter__''),
      (''hasOwnProperty'', Some ''hasOwnProperty''),
      (''__lookupGetter__'', Some ''__lookupGetter__''),
      (''__lookupSetter__'', Some ''__lookupSetter__''),
      (''isPrototypeOf'', Some ''isPrototypeOf''),
      (''propertyIsEnumerable'', Some ''propertyIsEnumerable''),
      (''toString'', Some ''toString''),
      (''valueOf'', Some ''valueOf''),
      (''__proto__'', None),
      (''toLocaleString'', Some ''toLocaleString'')]"

datatype property = Own PlantType | Inherited "string option" | Undefined

definition plantTypeById :: "PlantType list \<Rightarrow> string \<Rightarrow> property" where
  "plantTypeById plantTypes k =
     (case map_of (rev (map (\<lambda>p. (PlantType.id p, p)) plantTypes)) k of
        Some p \<Rightarrow> Own p
      | None \<Rightarrow>
          (case map_of Object_prototype k of
             Some n \<Rightarrow> Inherited n
           | None \<Rightarrow> Undefined))"

subsection \<open>Estimation logic\<close>

record Expected =
  germinationStart :: string
  germinationEnd :: string
  firstHarvest :: string
  lastHarvest :: string

record Phase =
  germinationPct :: jsnum
  growthPct :: jsnum
  harvestPct :: jsnum
  expected :: Expected
  "done" :: bool
  elapsed :: real
  total :: real

definition clamp :: "jsnum \<Rightarrow> jsnum \<Rightarrow> jsnum \<Rightarrow> jsnum" where
  "clamp v mn mx = Math_min mx (Math_max mn v)"

text \<open>
  \<^verbatim>\<open>phaseFor\<close> returns \<^verbatim>\<open>null\<close> (here \<open>None\<close>) when \<^verbatim>\<open>pt\<close> is \<^verbatim>\<open>undefined\<close>. When
  \<^verbatim>\<open>pt\<close> is an inherited member, its day counts are \<^verbatim>\<open>undefined\<close>: the percentages are
  \<^verbatim>\<open>NaN\<close>, and \<^verbatim>\<open>addDays(planting.plantedAt, undefined)\<close> sets the date to an invalid one
  (\<^verbatim>\<open>setDate(NaN)\<close>), on which \<^verbatim>\<open>toISOString\<close> throws a \<^verbatim>\<open>RangeError\<close>.
\<close>

definition phaseFor :: "host \<Rightarrow> PlantType list \<Rightarrow> Planting \<Rightarrow> error + Phase option" where
  "phaseFor h plantTypes planting =
     (case plantTypeById plantTypes (plantTypeId planting) of
        Undefined \<Rightarrow> Inr None
      | Inherited n \<Rightarrow> Inl RangeError
      | Own pt \<Rightarrow>
          (let now = todayISO h;
               elapsed = max 0 (real_of_int (daysBetween h (plantedAt planting) now));
               germAvg = (germinationMinDays pt + germinationMaxDays pt) / 2;
               g1 = germAvg;
               g2 = max 1 (maturityDays pt - g1);
               g3 = max 1 (harvestWindowDays pt);
               total = g1 + g2 + g3;
               p1 = clamp (js_mul (js_div elapsed g1) 100) (Num 0) (Num 100);
               p2 = clamp (js_mul (js_div (elapsed - g1) g2) 100) (Num 0) (Num 100);
               p3 = clamp (js_mul (js_div (elapsed - g1 - g2) g3) 100) (Num 0) (Num 100)
           in Inr (Some \<lparr>germinationPct = p1,
                     growthPct = p2,
                     harvestPct = p3,
                     expected =
                       \<lparr>germinationStart = addDays h (plantedAt planting) (germinationMinDays pt),
                        germinationEnd = addDays h (plantedAt planting) (germinationMaxDays pt),
                        firstHarvest = addDays h (plantedAt planting) (maturityDays pt),
                        lastHarvest =
                          addDays h (plantedAt planting) (maturityDays pt + harvestWindowDays pt)\<rparr>,
                     done = elapsed > total,
                     elapsed = elapsed,
                     total = total\<rparr>)))"

subsection \<open>Reports data\<close>

text \<open>
  A \<^verbatim>\<open>Map\<close> keeps its entries in insertion order: \<^verbatim>\<open>set\<close> on a key that is present
  replaces the value where the entry stands, \<^verbatim>\<open>set\<close> on a new key appends an entry.
  \<^verbatim>\<open>Array.from(map.entries())\<close> is then the list itself.
\<close>

definition Map_get :: "('k \<times> 'v) list \<Rightarrow> 'k \<Rightarrow> 'v option" where
  "Map_get m k = map_of m k"

fun Map_set :: "('k \<times> 'v) list \<Rightarrow> 'k \<Rightarrow> 'v \<Rightarrow> ('k \<times> 'v) list" where
  "Map_set [] k v = [(k, v)]"
| "Map_set ((k', v') # m) k v =
     (if k' = k then (k, v) # m else (k', v') # Map_set m k v)"

text \<open>\<^verbatim>\<open>map.get(k) || 0\<close>: \<^verbatim>\<open>undefined\<close>, \<^verbatim>\<open>0\<close> and \<^verbatim>\<open>NaN\<close> are falsy.\<close>

fun or_zero :: "jsnum option \<Rightarrow> jsnum" where
  "or_zero None = Num 0"
| "or_zero (Some NaN) = Num 0"
| "or_zero (Some (Num x)) = (if x = 0 then Num 0 else Num x)"
| "or_zero (Some v) = v"

text \<open>
  \<^verbatim>\<open>Array.prototype.sort\<close> with a comparator is a stable sort: \<open>x\<close> comes before \<open>y\<close>
  when the comparator is negative on \<open>(x, y)\<close>, and two elements on which it is 0 keep
  their order; a comparator value \<^verbatim>\<open>NaN\<close> counts as 0. Insertion from the right computes
  it; \<open>le0 v\<close> says that the comparator value \<open>v\<close> leaves \<open>x\<close> before \<open>y\<close>. (The
  comparator of \<^verbatim>\<open>monthlyTotals\<close> is never 0; it compares entries of one \<^verbatim>\<open>Map\<close>, whose
  keys differ.)
\<close>

fun le0 :: "jsnum \<Rightarrow> bool" where
  "le0 NaN = True"
| "le0 NegInf = True"
| "le0 (Num v) = (v \<le> 0)"
| "le0 PosInf = False"

fun insertBy :: "('a \<Rightarrow> 'a \<Rightarrow> jsnum) \<Rightarrow> 'a \<Rightarrow> 'a list \<Rightarrow> 'a list" where
  "insertBy cmp x [] = [x]"
| "insertBy cmp x (y # ys) = (if le0 (cmp x y) then x # y # ys else y # insertBy cmp x ys)"

definition Array_sort :: "('a \<Rightarrow> 'a \<Rightarrow> jsnum) \<Rightarrow> 'a list \<Rightarrow> 'a list" where
  "Array_sort cmp xs = foldr (insertBy cmp) xs []"

definition monthKey :: "string \<Rightarrow> string" where
  "monthKey isoDate = take 7 isoDate"

record MonthTotal =
  month :: string
  total :: jsnum

text \<open>The \<^verbatim>\<open>for\<close> loop of \<^verbatim>\<open>monthlyTotals\<close>, the map being the accumulator.\<close>

fun monthlyLoop :: "Harvest list \<Rightarrow> (string \<times> jsnum) list \<Rightarrow> (string \<times> jsnum) list" where
  "monthlyLoop [] m = m"
| "monthlyLoop (h # hs) m =
     (let k = monthKey (date h)
      in monthlyLoop hs (Map_set m k (js_add (or_zero (Map_get m k)) (Num (amount h)))))"

definition monthlyTotals :: "Harvest list \<Rightarrow> MonthTotal list" where
  "monthlyTotals harvestSubset =
     map (\<lambda>(month, total). \<lparr>month = month, MonthTotal.total = total\<rparr>)
       (Array_sort (\<lambda>(a, _) (b, _). if a < b then Num (- 1) else Num 1)
          (monthlyLoop harvestSubset []))"

record TypeTotal =
  name :: string
  total :: jsnum

text \<open>
  The key under which \<^verbatim>\<open>totalsByPlantType\<close> counts a harvest:
  \<^verbatim>\<open>pt?.name || "Unknown"\<close>, where \<^verbatim>\<open>undefined\<close> and the empty name are falsy; no key
  (\<^verbatim>\<open>continue\<close>) when the planting is not found.
\<close>

definition typeKey :: "PlantType list \<Rightarrow> Planting list \<Rightarrow> Harvest \<Rightarrow> string option" where
  "typeKey plantTypes plantings h =
     (case find (\<lambda>p. Planting.id p = plantingId h) plantings of
        None \<Rightarrow> None
      | Some planting \<Rightarrow>
          (case plantTypeById plantTypes (plantTypeId planting) of
             Undefined \<Rightarrow> Some ''Unknown''
           | Inherited None \<Rightarrow> Some ''Unknown''
           | Inherited (Some n) \<Rightarrow> Some (if n = [] then ''Unknown'' else n)
           | Own pt \<Rightarrow> Some (if PlantType.name pt = [] then ''Unknown'' else PlantType.name pt)))"

fun byTypeLoop ::
  "PlantType list \<Rightarrow> Planting list \<Rightarrow> Harvest list \<Rightarrow> (string \<times> jsnum) list
     \<Rightarrow> (string \<times> jsnum) list" where
  "byTypeLoop plantTypes plantings [] m = m"
| "byTypeLoop plantTypes plantings (h # hs) m =
     (case typeKey plantTypes plantings h of
        None \<Rightarrow> byTypeLoop plantTypes plantings hs m
      | Some key \<Rightarrow>
          byTypeLoop plantTypes plantings hs
            (Map_set m key (js_add (or_zero (Map_get m key)) (Num (amount h)))))"

definition totalsByPlantType ::
  "PlantType list \<Rightarrow> Planting list \<Rightarrow> Harvest list \<Rightarrow> TypeTotal list" where
  "totalsByPlantType plantTypes plantings harvestSubset =
     map (\<lambda>(name, total). \<lparr>name = name, TypeTotal.total = total\<rparr>)
       (Array_sort (\<lambda>a b. js_sub (snd b) (snd a))
          (byTypeLoop plantTypes plantings harvestSubset []))"

subsection \<open>Application state and its actions\<close>

text \<open>
  The three collections are React state. The type of what they hold is a parameter:
  the actions work on arrays of records, while an import stores whatever values the
  payload holds.
\<close>

record ('pt, 'pl, 'hv) collections =
  plantTypes :: 'pt
  plantings :: 'pl
  harvests :: 'hv

record HarvestInput =
  amount :: real
  unit :: Unit
  date :: string
  "notes" :: string

record app = "(PlantType list, Planting list, Harvest list) collections" +
  harvestTarget :: "Planting option"
  harvestInput :: HarvestInput

text \<open>
  \<^verbatim>\<open>logHarvest\<close>; \<open>uid\<close> is the identifier that the call of \<^verbatim>\<open>uid()\<close> returns.
  \<^verbatim>\<open>!amount\<close> holds of the number 0.
\<close>

definition logHarvest :: "string \<Rightarrow> app \<Rightarrow> app" where
  "logHarvest uid s =
     (case harvestTarget s of
        None \<Rightarrow> s
      | Some target \<Rightarrow>
          (let amount = HarvestInput.amount (harvestInput s);
               unit = HarvestInput.unit (harvestInput s);
               date = HarvestInput.date (harvestInput s);
               notes = HarvestInput.notes (harvestInput s)
           in if amount = 0 \<or> amount \<le> 0 then s
              else
                (let entry = \<lparr>Harvest.id = uid, plantingId = Planting.id target,
                              date = date, amount = amount, unit = unit, notes = notes\<rparr>
                 in s\<lparr>harvests := entry # harvests s, harvestTarget := None\<rparr>)))"

definition toggleArchive :: "string \<Rightarrow> app \<Rightarrow> app" where
  "toggleArchive i s =
     s\<lparr>plantings :=
         map (\<lambda>p. if Planting.id p = i then p\<lparr>archived := \<not> archived p\<rparr> else p) (plantings s)\<rparr>"

definition removeType :: "string \<Rightarrow> app \<Rightarrow> app" where
  "removeType i s = s\<lparr>plantTypes := filter (\<lambda>p. PlantType.id p \<noteq> i) (plantTypes s)\<rparr>"

subsection \<open>Export and import\<close>

text \<open>
  The values of a backup are JSON values; an object lists its own properties, each name
  once.
  \<^verbatim>\<open>JSON.stringify\<close> and \<^verbatim>\<open>JSON.parse\<close> belong to the host: \<^verbatim>\<open>exportJSON\<close> is
  modelled up to the value it hands to \<^verbatim>\<open>JSON.stringify\<close>, and \<^verbatim>\<open>importJSON\<close> from
  the outcome of \<^verbatim>\<open>JSON.parse\<close>, which is a value or a thrown error.
\<close>

datatype json =
  JNull | JBool bool | JNum real | JStr string | JArr "json list" | JObj "(string \<times> json) list"

datatype alert = ImportSuccessful | InvalidBackupFile | ImportFailed

text \<open>Truthiness of a JSON value.\<close>

fun truthy :: "json \<Rightarrow> bool" where
  "truthy JNull = False"
| "truthy (JBool b) = b"
| "truthy (JNum x) = (x \<noteq> 0)"
| "truthy (JStr s) = (s \<noteq> [])"
| "truthy (JArr xs) = True"
| "truthy (JObj kvs) = True"

text \<open>
  \<^verbatim>\<open>data.k\<close> for one of the three collection names: a \<^verbatim>\<open>TypeError\<close> on \<^verbatim>\<open>null\<close>, the
  property of an object (\<open>None\<close> is \<^verbatim>\<open>undefined\<close>), \<^verbatim>\<open>undefined\<close> on any other value
  (no number, string, boolean or array has a property of these names).
\<close>

fun getProp :: "json \<Rightarrow> string \<Rightarrow> error + json option" where
  "getProp JNull k = Inl TypeError"
| "getProp (JObj kvs) k = Inr (map_of kvs k)"
| "getProp v k = Inr None"

text \<open>
  \<^verbatim>\<open>importJSON\<close>, from the outcome of \<^verbatim>\<open>JSON.parse(text)\<close>. The condition
  \<^verbatim>\<open>data.plantTypes && data.plantings && data.harvests\<close> reads the fields from left to
  right and stops at the first falsy one; an error thrown on the way is caught
  (\<open>ImportFailed\<close>). The result is the new value of the three collections and the alert.
\<close>

definition importJSON ::
  "error + json \<Rightarrow> (json, json, json) collections \<Rightarrow> (json, json, json) collections \<times> alert" where
  "importJSON parsed c =
     (case parsed of
        Inl e \<Rightarrow> (c, ImportFailed)
      | Inr data \<Rightarrow>
          (case getProp data ''plantTypes'' of
             Inl e \<Rightarrow> (c, ImportFailed)
           | Inr None \<Rightarrow> (c, InvalidBackupFile)
           | Inr (Some pts) \<Rightarrow>
               if \<not> truthy pts then (c, InvalidBackupFile)
               else
                 (case getProp data ''plantings'' of
                    Inl e \<Rightarrow> (c, ImportFailed)
                  | Inr None \<Rightarrow> (c, InvalidBackupFile)
                  | Inr (Some pls) \<Rightarrow>
                      if \<not> truthy pls then (c, InvalidBackupFile)
                      else
                        (case getProp data ''harvests'' of
                           Inl e \<Rightarrow> (c, ImportFailed)
                         | Inr None \<Rightarrow> (c, InvalidBackupFile)
                         | Inr (Some hvs) \<Rightarrow>
                             if \<not> truthy hvs then (c, InvalidBackupFile)
                             else
                               (\<lparr>plantTypes = pts, plantings = pls, harvests = hvs\<rparr>,
                                ImportSuccessful)))))"

text \<open>\<^verbatim>\<open>exportJSON\<close>: the object that is serialised; \<open>exportedAt\<close> is the time stamp.\<close>

definition exportJSON :: "(json, json, json) collections \<Rightarrow> string \<Rightarrow> json" where
  "exportJSON c exportedAt =
     JObj [(''plantTypes'', plantTypes c), (''plantings'', plantings c),
           (''harvests'', harvests c), (''exportedAt'', JStr exportedAt)]"

text \<open>The values that the records and arrays of the typed collections are.\<close>

fun json_of_Unit :: "Unit \<Rightarrow> json" where
  "json_of_Unit kg = JStr ''kg''"
| "json_of_Unit count = JStr ''count''"

definition json_of_PlantType :: "PlantType \<Rightarrow> json" where
  "json_of_PlantType p =
     JObj [(''id'', JStr (PlantType.id p)), (''name'', JStr (PlantType.name p)),
           (''germinationMinDays'', JNum (germinationMinDays p)),
           (''germinationMaxDays'', JNum (germinationMaxDays p)),
           (''maturityDays'', JNum (maturityDays p)),
           (''harvestWindowDays'', JNum (harvestWindowDays p)),
           (''defaultUnit'', json_of_Unit (defaultUnit p))]"

definition json_of_Planting :: "Planting \<Rightarrow> json" where
  "json_of_Planting p =
     JObj [(''id'', JStr (Planting.id p)), (''archived'', JBool (archived p)),
           (''plantTypeId'', JStr (plantTypeId p)), (''plantedAt'', JStr (plantedAt p)),
           (''location'', JStr (location p)), (''quantityPlanted'', JNum (quantityPlanted p)),
           (''notes'', JStr (Planting.notes p))]"

definition json_of_Harvest :: "Harvest \<Rightarrow> json" where
  "json_of_Harvest h =
     JObj [(''id'', JStr (Harvest.id h)), (''plantingId'', JStr (plantingId h)),
           (''amount'', JNum (Harvest.amount h)), (''unit'', json_of_Unit (Harvest.unit h)),
           (''date'', JStr (Harvest.date h)), (''notes'', JStr (Harvest.notes h))]"

definition json_of_collections ::
  "(PlantType list, Planting list, Harvest list, 'z) collections_scheme
     \<Rightarrow> (json, json, json) collections" where
  "json_of_collections s =
     \<lparr>plantTypes = JArr (map json_of_PlantType (plantTypes s)),
      plantings = JArr (map json_of_Planting (plantings s)),
      harvests = JArr (map json_of_Harvest (harvests s))\<rparr>"

subsection \<open>Notions used to state the properties\<close>

text \<open>The harvests that \<^verbatim>\<open>totalsByPlantType\<close> does not skip: their planting is found.\<close>

definition resolves :: "Planting list \<Rightarrow> Harvest \<Rightarrow> bool" where
  "resolves pls h = (find (\<lambda>p. Planting.id p = plantingId h) pls \<noteq> None)"

text \<open>
  The top-level field \<open>k\<close> of a payload, if the payload is an object that has it; a
  payload contains the field when it has it, whatever its value.
\<close>

definition payloadField :: "json \<Rightarrow> string \<Rightarrow> json option" where
  "payloadField data k = (case data of JObj kvs \<Rightarrow> map_of kvs k | _ \<Rightarrow> None)"

definition containsField :: "json \<Rightarrow> string \<Rightarrow> bool" where
  "containsField data k = (payloadField data k \<noteq> None)"

definition truthyField :: "json \<Rightarrow> string \<Rightarrow> bool" where
  "truthyField data k = (case payloadField data k of None \<Rightarrow> False | Some v \<Rightarrow> truthy v)"

text \<open>
  The two report loops are instances of one loop, which adds \<open>val x\<close> under the key
  \<open>key x\<close> and skips \<open>x\<close> when it has no key. \<open>runningTotal t as\<close> is what the loop
  leaves under a key whose entry was \<open>t\<close> (\<open>None\<close>: no entry) after adding the amounts
  \<open>as\<close> one by one.
\<close>

fun accumulate ::
  "('a \<Rightarrow> 'k option) \<Rightarrow> ('a \<Rightarrow> real) \<Rightarrow> 'a list \<Rightarrow> ('k \<times> jsnum) list
     \<Rightarrow> ('k \<times> jsnum) list" where
  "accumulate key val [] m = m"
| "accumulate key val (x # xs) m =
     (case key x of
        None \<Rightarrow> accumulate key val xs m
      | Some k \<Rightarrow>
          accumulate key val xs (Map_set m k (js_add (or_zero (Map_get m k)) (Num (val x)))))"

fun runningTotal :: "jsnum option \<Rightarrow> real list \<Rightarrow> jsnum option" where
  "runningTotal t [] = t"
| "runningTotal t (a # as) = runningTotal (Some (js_add (or_zero t) (Num a))) as"

text \<open>
  No addition rounds: adding the amounts \<open>as\<close> one by one to \<open>s\<close>, every sum is a double
  as it stands; and this for the amounts of every key of the loop, from 0.
\<close>

fun exactFrom :: "real \<Rightarrow> real list \<Rightarrow> bool" where
  "exactFrom s [] = True"
| "exactFrom s (a # as) = (round64 (s + a) = Num (s + a) \<and> exactFrom (s + a) as)"

definition noRounding :: "('a \<Rightarrow> 'k option) \<Rightarrow> ('a \<Rightarrow> real) \<Rightarrow> 'a list \<Rightarrow> bool" where
  "noRounding key val xs =
     (\<forall>x \<in> set xs.
        case key x of
          None \<Rightarrow> True
        | Some k \<Rightarrow> exactFrom 0 (map val (filter (\<lambda>y. key y = Some k) xs)))"

text \<open>
  The doubles are multiples of the least positive one; \<open>isTotal\<close> holds of the values
  that the loops store: infinities and numbers of this grid.
\<close>

definition minSubnormal :: real where
  "minSubnormal = 2 powi (- 1074)"

definition onGrid :: "real \<Rightarrow> bool" where
  "onGrid y = (of_int \<lfloor>y / minSubnormal\<rfloor> = y / minSubnormal)"

fun isTotal :: "jsnum \<Rightarrow> bool" where
  "isTotal NaN = False"
| "isTotal (Num y) = onGrid y"
| "isTotal v = True"

subsection \<open>Example data\<close>

text \<open>
  A clock for the examples: the planting date \<^verbatim>\<open>2024-03-01\<close> is day 0, and \<open>today\<close> is
  one of the dates of the table. The projected dates play no part in the examples.
\<close>

definition exampleHost :: "string \<Rightarrow> host" where
  "exampleHost today =
     \<lparr>dateMs = (\<lambda>s. 86400000 *
          (case map_of [(''2024-03-01'', 0), (''2024-03-16'', 15), (''2024-12-31'', 305)] s of
             None \<Rightarrow> 0 | Some d \<Rightarrow> d)),
      todayISO = today,
      addDays = (\<lambda>s d. s)\<rparr>"

definition kumara :: PlantType where
  "kumara = \<lparr>PlantType.id = ''pt-kumara'', name = ''Kumara'', germinationMinDays = 10,
     germinationMaxDays = 20, maturityDays = 140, harvestWindowDays = 21, defaultUnit = kg\<rparr>"

definition seedling :: PlantType where
  "seedling = \<lparr>PlantType.id = ''pt-seedling'', name = ''Seedling'', germinationMinDays = 0,
     germinationMaxDays = 0, maturityDays = 60, harvestWindowDays = 21, defaultUnit = count\<rparr>"

definition bedA :: Planting where
  "bedA = \<lparr>Planting.id = ''pl-a'', plantTypeId = ''pt-kumara'', plantedAt = ''2024-03-01'',
     location = ''Bed A'', quantityPlanted = 12, notes = [], archived = False\<rparr>"

definition bedB :: Planting where
  "bedB = \<lparr>Planting.id = ''pl-b'', plantTypeId = ''pt-seedling'', plantedAt = ''2024-03-01'',
     location = ''Bed B'', quantityPlanted = 6, notes = [], archived = False\<rparr>"

text \<open>
  A ledger, newest first: two harvests of March and one of April from the two beds, and
  one harvest whose planting has been deleted.
\<close>

definition march05 :: Harvest where
  "march05 = \<lparr>Harvest.id = ''h-1'', plantingId = ''pl-a'', date = ''2024-03-05'', amount = 2,
     unit = kg, notes = []\<rparr>"

definition march20 :: Harvest where
  "march20 = \<lparr>Harvest.id = ''h-2'', plantingId = ''pl-a'', date = ''2024-03-20'', amount = 3,
     unit = kg, notes = []\<rparr>"

definition april01 :: Harvest where
  "april01 = \<lparr>Harvest.id = ''h-3'', plantingId = ''pl-b'', date = ''2024-04-01'', amount = 1,
     unit = kg, notes = []\<rparr>"

definition orphan :: Harvest where
  "orphan = \<lparr>Harvest.id = ''h-4'', plantingId = ''pl-gone'', date = ''2024-04-02'', amount = 4,
     unit = kg, notes = []\<rparr>"

definition ledger :: "Harvest list" where
  "ledger = [april01, march20, march05]"

definition garden :: app where
  "garden = \<lparr>plantTypes = [kumara, seedling], plantings = [bedA, bedB], harvests = ledger,
     harvestTarget = Some bedA,
     harvestInput = \<lparr>amount = 5 / 2, unit = kg, date = ''2024-04-10'', notes = ''first pick''\<rparr>\<rparr>"

text \<open>Payloads: one whose \<^verbatim>\<open>harvests\<close> field is \<^verbatim>\<open>null\<close>, one without that field, and
  one whose three fields are truthy values that are not collections.\<close>

definition nullHarvestsPayload :: json where
  "nullHarvestsPayload =
     JObj [(''plantTypes'', JArr []), (''plantings'', JArr []), (''harvests'', JNull)]"

definition missingHarvestsPayload :: json where
  "missingHarvestsPayload = JObj [(''plantTypes'', JArr []), (''plantings'', JArr [])]"

definition loosePayload :: json where
  "loosePayload =
     JObj [(''plantTypes'', JNum 1), (''plantings'', JStr ''x''), (''harvests'', JBool True)]"

text \<open>
  The doubles that the literals \<^verbatim>\<open>0.1\<close> and \<^verbatim>\<open>0.4\<close> denote, and a ledger of three harvests
  with these amounts: two of March on bed A and, between them, one of April on bed B.
\<close>

definition tenth :: real where
  "tenth = 3602879701896397 / 36028797018963968"

definition fourTenths :: real where
  "fourTenths = 3602879701896397 / 9007199254740992"

definition dimes :: "Harvest list" where
  "dimes =
     [\<lparr>Harvest.id = ''h-6'', plantingId = ''pl-a'', date = ''2024-03-05'', amount = tenth,
       unit = kg, notes = []\<rparr>,
      \<lparr>Harvest.id = ''h-7'', plantingId = ''pl-b'', date = ''2024-04-01'', amount = tenth,
       unit = kg, notes = []\<rparr>,
      \<lparr>Harvest.id = ''h-8'', plantingId = ''pl-a'', date = ''2024-03-20'', amount = fourTenths,
       unit = kg, notes = []\<rparr>]"

text \<open>
  A planting whose plant type identifier is not in the catalogue and is the name of an
  inherited member, and a harvest of it.
\<close>

definition bedC :: Planting where
  "bedC = \<lparr>Planting.id = ''pl-c'', plantTypeId = ''constructor'', plantedAt = ''2024-03-01'',
     location = ''Bed C'', quantityPlanted = 1, notes = [], archived = False\<rparr>"

definition may01 :: Harvest where
  "may01 = \<lparr>Harvest.id = ''h-9'', plantingId = ''pl-c'', date = ''2024-05-01'', amount = 1,
     unit = kg, notes = []\<rparr>"

section \<open>Properties of the phase estimator\<close>

lemma clamp_in_0_100: "v \<noteq> NaN \<Longrightarrow> in_0_100 (clamp v (Num 0) (Num 100))"
  by (cases v) (simp_all add: clamp_def in_0_100_def)

lemma js_div_not_NaN: "b \<noteq> 0 \<Longrightarrow> js_mul (js_div a b) 100 \<noteq> NaN"
  by (simp add: js_div_def)

text \<open>
  Claim C1. When the plant type of a planting is found and the germination length
  \<open>(germinationMinDays + germinationMaxDays) / 2\<close> is positive (the growth length and the
  harvest length are at least 1 by construction), \<^verbatim>\<open>phaseFor\<close> returns a snapshot whose
  elapsed day count is not negative and whose three percentages are numbers between 0
  and 100.
\<close>

theorem phaseFor_pct_in_range:
  assumes "plantTypeById pts (plantTypeId planting) = Own pt"
    and "0 < germinationMinDays pt + germinationMaxDays pt"
  shows "\<exists>s. phaseFor h pts planting = Inr (Some s) \<and> 0 \<le> elapsed s
           \<and> in_0_100 (germinationPct s) \<and> in_0_100 (growthPct s) \<and> in_0_100 (harvestPct s)"
proof -
  let ?g1 = "(germinationMinDays pt + germinationMaxDays pt) / 2"
  have g1: "?g1 \<noteq> 0" using assms(2) by simp
  have g2: "max 1 (maturityDays pt - ?g1) \<noteq> 0" by simp
  have g3: "max 1 (harvestWindowDays pt) \<noteq> 0" by simp
  show ?thesis
    using assms(1) g1 g2 g3
    by (simp add: phaseFor_def Let_def clamp_in_0_100 js_div_not_NaN)
qed

theorem phaseFor_pct_in_range_witness:
  "plantTypeById [kumara] (plantTypeId bedA) = Own kumara
   \<and> 0 < germinationMinDays kumara + germinationMaxDays kumara
   \<and> (\<exists>s. phaseFor (exampleHost ''2024-03-16'') [kumara] bedA = Inr (Some s) \<and> 0 \<le> elapsed s
          \<and> in_0_100 (germinationPct s) \<and> in_0_100 (growthPct s) \<and> in_0_100 (harvestPct s))"
proof -
  have r: "plantTypeById [kumara] (plantTypeId bedA) = Own kumara"
    by (simp add: plantTypeById_def kumara_def bedA_def)
  have g: "0 < germinationMinDays kumara + germinationMaxDays kumara"
    by (simp add: kumara_def)
  from phaseFor_pct_in_range [OF r g, of "exampleHost ''2024-03-16''"] r g
  show ?thesis by blast
qed


lemma clamp_0: "x \<le> 0 \<Longrightarrow> clamp (Num x) (Num 0) (Num 100) = Num 0"
  by (simp add: clamp_def)



lemma pct_le_0:
  "0 < g \<Longrightarrow> x \<le> 0 \<Longrightarrow> clamp (js_mul (js_div x g) 100) (Num 0) (Num 100) = Num 0"
  by (simp add: js_div_def clamp_0 divide_le_0_iff mult_le_0_iff)


text \<open>
  Claim C2. A planting of today (elapsed = 0) should have the three percentages 0 and
  \<open>done = False\<close>. For a plant type whose two germination day counts are 0 the
  germination length is 0, \<^verbatim>\<open>0 / 0\<close> is \<^verbatim>\<open>NaN\<close>, and \<^verbatim>\<open>clamp\<close> returns \<^verbatim>\<open>NaN\<close>:
  the snapshot of such a planting has \<open>germinationPct = NaN\<close>. (The growth and harvest
  lengths are guarded by \<^verbatim>\<open>Math.max(1, ...)\<close>; the germination length is not.)
\<close>

theorem phaseFor_planted_today_zero_germination:
  "phaseFor (exampleHost ''2024-03-01'') [seedling] bedB =
     Inr (Some \<lparr>germinationPct = NaN, growthPct = Num 0, harvestPct = Num 0,
            expected = \<lparr>germinationStart = ''2024-03-01'', germinationEnd = ''2024-03-01'',
                        firstHarvest = ''2024-03-01'', lastHarvest = ''2024-03-01''\<rparr>,
            done = False, elapsed = 0, total = 81\<rparr>)"
  by (simp add: phaseFor_def plantTypeById_def seedling_def bedB_def exampleHost_def
      daysBetween_def js_div_def clamp_def Let_def)

text \<open>
  With a positive germination length the snapshot of a planting of today is the expected
  one: the three percentages are 0 and \<open>done\<close> is false.
\<close>

lemma phaseFor_planted_today:
  assumes "plantTypeById pts (plantTypeId planting) = Own pt"
    and "0 < germinationMinDays pt + germinationMaxDays pt"
    and "daysBetween h (plantedAt planting) (todayISO h) \<le> 0"
  shows "\<exists>s. phaseFor h pts planting = Inr (Some s) \<and> elapsed s = 0 \<and> germinationPct s = Num 0
          \<and> growthPct s = Num 0 \<and> harvestPct s = Num 0 \<and> \<not> done s"
proof -
  let ?g1 = "(germinationMinDays pt + germinationMaxDays pt) / 2"
  let ?g2 = "max 1 (maturityDays pt - ?g1)"
  let ?g3 = "max 1 (harvestWindowDays pt)"
  have e: "max 0 (real_of_int (daysBetween h (plantedAt planting) (todayISO h))) = 0"
    using assms(3) by simp
  have g1: "0 < ?g1" using assms(2) by simp
  have g2: "0 < ?g2" by simp
  have g3: "0 < ?g3" by simp
  have p1: "clamp (js_mul (js_div 0 ?g1) 100) (Num 0) (Num 100) = Num 0"
    using g1 by (intro pct_le_0) simp_all
  have p2: "clamp (js_mul (js_div (0 - ?g1) ?g2) 100) (Num 0) (Num 100) = Num 0"
    using g1 g2 by (intro pct_le_0) simp_all
  have p3: "clamp (js_mul (js_div (0 - ?g1 - ?g2) ?g3) 100) (Num 0) (Num 100) = Num 0"
  proof (rule pct_le_0 [OF g3])
    show "0 - ?g1 - ?g2 \<le> 0" using g1 g2 by linarith
  qed
  have d: "\<not> 0 > ?g1 + ?g2 + ?g3" using g1 g2 g3 by linarith
  show ?thesis
    using assms(1) e p1 p2 p3 d by (simp add: phaseFor_def Let_def)
qed



section \<open>Properties of the rounding\<close>

lemma find_upto_Some:
  assumes "a \<le> e" "e \<le> b" "P e" "\<And>j. a \<le> j \<Longrightarrow> j < e \<Longrightarrow> \<not> P j"
  shows "find P [a..b] = Some e"
proof -
  let ?i = "nat (e - a)"
  have i: "?i < length [a..b]" using assms(1,2) by simp
  have nth: "[a..b] ! ?i = e" using assms(1,2) by (simp add: nth_upto)
  have before: "\<not> P ([a..b] ! j)" if "j < ?i" for j
  proof -
    have "[a..b] ! j = a + int j" using that assms(2) by (simp add: nth_upto)
    moreover have "a \<le> a + int j" "a + int j < e" using that by linarith+
    ultimately show ?thesis using assms(4) by simp
  qed
  show ?thesis
    unfolding find_Some_iff using i nth before assms(3) by (intro exI [of _ ?i]) auto
qed

lemma find_upto_SomeD:
  assumes "find P [a..b] = Some e"
  shows "a \<le> e \<and> e \<le> b \<and> P e \<and> (\<forall>j. a \<le> j \<and> j < e \<longrightarrow> \<not> P j)"
proof -
  from assms obtain i where i: "i < length [a..b]" and P: "P ([a..b] ! i)"
    and e: "e = [a..b] ! i" and before: "\<forall>j<i. \<not> P ([a..b] ! j)"
    unfolding find_Some_iff by blast
  have ib: "a + int i \<le> b" using i by simp
  have ei: "e = a + int i" using e ib by (simp add: nth_upto)
  have "\<not> P j" if "a \<le> j" "j < e" for j
  proof -
    let ?k = "nat (j - a)"
    have k: "?k < i" using that ei by linarith
    have "[a..b] ! ?k = j" using that ei ib by (simp add: nth_upto)
    with before k show ?thesis by metis
  qed
  then show ?thesis using ei ib P e by auto
qed

lemma find_upto_None: "find P [a..b] = None \<longleftrightarrow> (\<forall>j. a \<le> j \<and> j \<le> b \<longrightarrow> \<not> P j)"
  unfolding find_None_iff by (simp only: set_upto atLeastAtMost_iff) blast

lemma exponent_Some:
  assumes "- 1022 \<le> e" "e \<le> 1023" "\<bar>x\<bar> < 2 powi (e + 1)" "e = - 1022 \<or> 2 powi e \<le> \<bar>x\<bar>"
  shows "exponent x = Some e"
  unfolding exponent_def
proof (rule find_upto_Some [of "- 1022" e 1023 "\<lambda>e. \<bar>x\<bar> < 2 powi (e + 1)"])
  show "- 1022 \<le> e" "e \<le> 1023" "\<bar>x\<bar> < 2 powi (e + 1)" by (fact assms)+
next
  fix j :: int
  assume j: "- 1022 \<le> j" "j < e"
  then have "(2::real) powi (j + 1) \<le> 2 powi e"
    by (intro power_int_increasing) simp_all
  moreover have "2 powi e \<le> \<bar>x\<bar>" using assms(4) j by linarith
  ultimately show "\<not> \<bar>x\<bar> < 2 powi (j + 1)" by linarith
qed

lemma exponent_SomeD:
  assumes "exponent x = Some e"
  shows "- 1022 \<le> e \<and> e \<le> 1023 \<and> \<bar>x\<bar> < 2 powi (e + 1) \<and> (e = - 1022 \<or> 2 powi e \<le> \<bar>x\<bar>)"
proof -
  from find_upto_SomeD [OF assms [unfolded exponent_def]]
  have b: "- 1022 \<le> e" "e \<le> 1023" "\<bar>x\<bar> < 2 powi (e + 1)"
    and before: "\<And>j. - 1022 \<le> j \<Longrightarrow> j < e \<Longrightarrow> \<not> \<bar>x\<bar> < 2 powi (j + 1)"
    by blast+
  have "2 powi e \<le> \<bar>x\<bar>" if "e \<noteq> - 1022"
    using before [of "e - 1"] that b(1) by simp
  with b show ?thesis by blast
qed

lemma roundHalfEven_int: "roundHalfEven (of_int n) = n"
  by (simp add: roundHalfEven_def)

lemma roundHalfEven_nonpos: "q \<le> 0 \<Longrightarrow> roundHalfEven q \<le> 0"
proof (cases "q = 0")
  case True
  then show ?thesis by (simp add: roundHalfEven_def)
next
  case False
  assume "q \<le> 0"
  with False have "q < 0" by simp
  then have "\<lfloor>q\<rfloor> < 0" by (simp add: floor_less_zero)
  then show ?thesis by (auto simp add: roundHalfEven_def Let_def)
qed

lemma roundHalfEven_ge: "of_int k \<le> q \<Longrightarrow> k \<le> roundHalfEven q"
proof -
  assume "of_int k \<le> q"
  then have "k \<le> \<lfloor>q\<rfloor>" by (simp add: le_floor_iff)
  then show ?thesis by (auto simp add: roundHalfEven_def Let_def)
qed

lemma round64_not_NaN: "round64 x \<noteq> NaN"
  by (simp add: round64_def Let_def split: option.splits)

lemma round64_nonpos:
  assumes "x \<le> 0"
  shows "round64 x = NegInf \<or> (\<exists>y\<le>0. round64 x = Num y)"
proof (cases "x = 0")
  case True
  then show ?thesis by (simp add: round64_def)
next
  case False
  then have neg: "x < 0" using assms by simp
  show ?thesis
  proof (cases "exponent x")
    case None
    then show ?thesis using neg False by (simp add: round64_def)
  next
    case (Some e)
    have ulp: "0 < (2::real) powi (e - 52)" by simp
    have "x / 2 powi (e - 52) \<le> 0" using neg ulp by (simp add: divide_le_0_iff)
    then have "roundHalfEven (x / 2 powi (e - 52)) \<le> 0" by (rule roundHalfEven_nonpos)
    then have "of_int (roundHalfEven (x / 2 powi (e - 52))) * (2::real) powi (e - 52) \<le> 0"
      using ulp by (simp add: mult_le_0_iff)
    then show ?thesis using Some neg False by (simp add: round64_def Let_def)
  qed
qed

lemma minSubnormal_pos: "0 < minSubnormal"
  unfolding minSubnormal_def by (rule zero_less_power_int) simp

lemma ulp_minSubnormal:
  assumes "- 1022 \<le> e"
  shows "2 powi (e - 52) = of_int (2 ^ nat (e + 1022)) * minSubnormal"
proof -
  have "e - 52 = (e + 1022) + (- 1074)" by simp
  then have "(2::real) powi (e - 52) = 2 powi ((e + 1022) + (- 1074))" by (simp only:)
  also have "\<dots> = 2 powi (e + 1022) * 2 powi (- 1074)" by (rule power_int_add) simp
  also have "(2::real) powi (e + 1022) = of_int (2 ^ nat (e + 1022))"
    using assms by (simp add: power_int_def)
  finally show ?thesis by (simp only: minSubnormal_def)
qed

lemma round64_pos:
  assumes "minSubnormal \<le> x"
  shows "round64 x = PosInf \<or> (\<exists>y>0. round64 x = Num y)"
proof -
  have pos: "0 < x" using assms minSubnormal_pos by linarith
  show ?thesis
  proof (cases "exponent x")
    case None
    then show ?thesis using pos by (simp add: round64_def)
  next
    case (Some e)
    from exponent_SomeD [OF Some] have e: "- 1022 \<le> e" "e = - 1022 \<or> 2 powi e \<le> \<bar>x\<bar>" by blast+
    have ulp: "0 < (2::real) powi (e - 52)" by simp
    have "2 powi (e - 52) \<le> x"
    proof (cases "e = - 1022")
      case True
      have "(2::real) powi (e - 52) = minSubnormal"
        unfolding True minSubnormal_def by (simp only: diff_conv_add_uminus flip: minus_add_distrib) simp
      then show ?thesis using assms by simp
    next
      case False
      then have "2 powi e \<le> x" using e(2) pos by simp
      moreover have "(2::real) powi (e - 52) \<le> 2 powi e" by (intro power_int_increasing) simp_all
      ultimately show ?thesis by linarith
    qed
    then have "of_int 1 \<le> x / 2 powi (e - 52)" using ulp by (simp add: le_divide_eq)
    then have "1 \<le> roundHalfEven (x / 2 powi (e - 52))" by (rule roundHalfEven_ge)
    then have "0 < of_int (roundHalfEven (x / 2 powi (e - 52))) * (2::real) powi (e - 52)"
      using ulp by simp
    then show ?thesis using Some pos by (simp add: round64_def Let_def)
  qed
qed

lemma onGrid_iff: "onGrid y \<longleftrightarrow> (\<exists>n::int. y = of_int n * minSubnormal)"
proof
  assume "onGrid y"
  then have "y / minSubnormal = of_int \<lfloor>y / minSubnormal\<rfloor>"
    unfolding onGrid_def by (rule sym)
  then have "y = of_int \<lfloor>y / minSubnormal\<rfloor> * minSubnormal"
    using minSubnormal_pos by (simp add: field_simps)
  then show "\<exists>n::int. y = of_int n * minSubnormal" ..
next
  assume "\<exists>n::int. y = of_int n * minSubnormal"
  then obtain n :: int where "y = of_int n * minSubnormal" ..
  then have "y / minSubnormal = of_int n" using minSubnormal_pos by simp
  then have "of_int \<lfloor>y / minSubnormal\<rfloor> = y / minSubnormal" by (metis floor_of_int)
  then show "onGrid y" by (simp only: onGrid_def)
qed

lemma round64_onGrid:
  assumes "round64 x = Num y"
  shows "onGrid y"
proof (cases "x = 0")
  case True
  then show ?thesis using assms by (auto simp add: round64_def onGrid_def)
next
  case False
  then obtain e where Some: "exponent x = Some e"
    using assms by (cases "exponent x") (auto simp add: round64_def split: if_splits)
  from exponent_SomeD [OF Some] have e: "- 1022 \<le> e" by blast
  let ?n = "roundHalfEven (x / 2 powi (e - 52))"
  have y: "y = of_int ?n * 2 powi (e - 52)"
    using assms False Some by (simp add: round64_def Let_def split: if_splits)
  have "y = of_int (?n * 2 ^ nat (e + 1022)) * minSubnormal"
    unfolding y ulp_minSubnormal [OF e] by simp
  then show ?thesis unfolding onGrid_iff ..
qed

lemma onGrid_diff:
  assumes "onGrid a" "onGrid b" "a < b"
  shows "minSubnormal \<le> b - a"
proof -
  from assms obtain n m :: int where a: "a = of_int n * minSubnormal"
    and b: "b = of_int m * minSubnormal" unfolding onGrid_iff by blast
  have g: "0 < minSubnormal" by (rule minSubnormal_pos)
  have "n < m"
  proof (rule ccontr)
    assume "\<not> n < m"
    then have "(of_int m :: real) \<le> of_int n" by simp
    then have "b \<le> a" unfolding a b using g by (simp add: mult_right_mono)
    with assms(3) show False by simp
  qed
  then have "(1::real) \<le> of_int (m - n)" by simp
  then have "1 * minSubnormal \<le> of_int (m - n) * minSubnormal"
    using g by (intro mult_right_mono) simp_all
  then show ?thesis unfolding a b by (simp add: algebra_simps)
qed

lemma round64_exact:
  assumes "- 1022 \<le> e" "e \<le> 1023" "2 powi e \<le> \<bar>x\<bar>" "\<bar>x\<bar> < 2 powi (e + 1)"
    and "x / 2 powi (e - 52) = of_int n"
  shows "round64 x = Num x"
proof -
  have ex: "exponent x = Some e" using assms(1-4) by (intro exponent_Some) simp_all
  have nz: "x \<noteq> 0" using assms(3) by (smt (verit) zero_less_power_int)
  have ulp: "(2::real) powi (e - 52) \<noteq> 0" by simp
  have y: "of_int (roundHalfEven (x / 2 powi (e - 52))) * 2 powi (e - 52) = x"
    using assms(5) ulp by (simp add: roundHalfEven_int field_simps)
  have "(2::real) powi (e + 1) \<le> 2 powi 1024" using assms(2) by (intro power_int_increasing) simp_all
  then have "\<not> 2 powi 1024 \<le> \<bar>x\<bar>" using assms(4) by linarith
  then show ?thesis using ex nz y by (simp add: round64_def Let_def)
qed

lemma round64_eval:
  assumes "- 1022 \<le> e" "e \<le> 1023" "2 powi e \<le> \<bar>x\<bar>" "\<bar>x\<bar> < 2 powi (e + 1)"
  shows "round64 x =
     (let y = of_int (roundHalfEven (x / 2 powi (e - 52))) * 2 powi (e - 52)
      in if 2 powi 1024 \<le> \<bar>y\<bar> then (if 0 < x then PosInf else NegInf) else Num y)"
proof -
  have ex: "exponent x = Some e" using assms(1-4) by (intro exponent_Some) simp_all
  have nz: "x \<noteq> 0" using assms(3) by (smt (verit) zero_less_power_int)
  show ?thesis using ex nz by (simp add: round64_def Let_def)
qed

lemma le0_round64_nonpos: "x \<le> 0 \<Longrightarrow> le0 (round64 x)"
  using round64_nonpos [of x] by auto

lemma le0_round64_pos: "minSubnormal \<le> x \<Longrightarrow> \<not> le0 (round64 x)"
  using round64_pos [of x] by auto

lemma minSubnormal_le_1: "minSubnormal \<le> 1"
proof -
  have "(2::real) powi (- 1074) \<le> 2 powi 0" by (intro power_int_increasing) simp_all
  then show ?thesis by (simp only: minSubnormal_def power_int_0_right)
qed

text \<open>
  Whole numbers below \<open>2 ^ 53\<close> in absolute value are doubles: they round to themselves.
\<close>

lemma round64_of_int:
  assumes "\<bar>n\<bar> < 2 ^ 53"
  shows "round64 (of_int n) = Num (of_int n)"
proof (cases "n = 0")
  case True
  then show ?thesis by (simp add: round64_def)
next
  case False
  then have "1 \<le> nat \<bar>n\<bar>" by simp
  from ex_power_ivl1 [OF _ this, of 2] obtain k :: nat
    where k: "2 ^ k \<le> nat \<bar>n\<bar>" "nat \<bar>n\<bar> < 2 ^ (k + 1)" by auto
  have "(2::nat) ^ k < 2 ^ 53"
  proof -
    have "nat \<bar>n\<bar> < 2 ^ 53" using assms by (simp add: nat_less_iff)
    with k(1) show ?thesis by linarith
  qed
  then have k53: "k < 53" by (simp only: power_strict_increasing_iff one_less_numeral_iff
      semiring_norm)
  have lo: "(2::real) ^ k \<le> \<bar>of_int n\<bar>"
  proof -
    have "real (2 ^ k) \<le> real (nat \<bar>n\<bar>)" using k(1) by (simp only: of_nat_le_iff)
    then show ?thesis by simp
  qed
  have hi: "\<bar>of_int n :: real\<bar> < 2 ^ (k + 1)"
  proof -
    have "real (nat \<bar>n\<bar>) < real (2 ^ (k + 1))" using k(2) by (simp only: of_nat_less_iff)
    then show ?thesis by simp
  qed
  have q: "(of_int n :: real) / 2 powi (int k - 52) = of_int (n * 2 ^ (52 - k))"
  proof -
    have "int k - 52 = - int (52 - k)" using k53 by simp
    then have "(2::real) powi (int k - 52) = inverse (2 ^ (52 - k))"
      by (simp only: power_int_minus power_int_of_nat)
    then show ?thesis by (simp add: field_simps)
  qed
  show ?thesis
  proof (rule round64_exact [of "int k" _ "n * 2 ^ (52 - k)"])
    show "- 1022 \<le> int k" by simp
    show "int k \<le> 1023" using k53 by simp
    show "2 powi int k \<le> \<bar>of_int n :: real\<bar>" using lo by (simp only: power_int_of_nat)
    show "\<bar>of_int n :: real\<bar> < 2 powi (int k + 1)"
    proof -
      have "int k + 1 = int (k + 1)" by simp
      then show ?thesis using hi by (simp only: power_int_of_nat)
    qed
    show "(of_int n :: real) / 2 powi (int k - 52) = of_int (n * 2 ^ (52 - k))" by (rule q)
  qed
qed

lemma round64_numeral:
  "\<bar>numeral k :: int\<bar> < 2 ^ 53 \<Longrightarrow> round64 (numeral k) = Num (numeral k)"
  using round64_of_int [of "numeral k"] by simp

lemma round64_1: "round64 1 = Num 1"
  using round64_of_int [of 1] by simp

section \<open>Properties of the reports\<close>

subsection \<open>The map, the running totals and the sort\<close>

lemma monthlyLoop_accumulate:
  "monthlyLoop hs m = accumulate (\<lambda>h. Some (monthKey (Harvest.date h))) Harvest.amount hs m"
  by (induction hs arbitrary: m) (simp_all add: Let_def)

lemma byTypeLoop_accumulate:
  "byTypeLoop pts pls hs m = accumulate (typeKey pts pls) Harvest.amount hs m"
  by (induction hs arbitrary: m) (simp_all split: option.splits)

lemma map_of_Map_set: "map_of (Map_set m k v) = (map_of m)(k \<mapsto> v)"
  by (induction m) (auto simp add: fun_eq_iff)

lemma map_fst_Map_set:
  "map fst (Map_set m k v) = (if k \<in> set (map fst m) then map fst m else map fst m @ [k])"
  by (induction m) force+

lemma keys_Map_set: "fst ` set (Map_set m k v) = insert k (fst ` set m)"
proof -
  have "set (map fst (Map_set m k v)) = insert k (set (map fst m))"
    by (auto simp add: map_fst_Map_set)
  then show ?thesis by simp
qed

lemma distinct_Map_set: "distinct (map fst m) \<Longrightarrow> distinct (map fst (Map_set m k v))"
  by (simp add: map_fst_Map_set)

lemma set_Map_set: "set (Map_set m k v) \<subseteq> insert (k, v) (set m)"
  by (induction m) (auto split: if_splits)

lemma distinct_accumulate:
  "distinct (map fst m) \<Longrightarrow> distinct (map fst (accumulate key val xs m))"
  by (induction xs arbitrary: m) (auto simp add: distinct_Map_set split: option.splits)

lemma keys_accumulate:
  "fst ` set (accumulate key val xs m) = fst ` set m \<union> {k. \<exists>x \<in> set xs. key x = Some k}"
  by (induction xs arbitrary: m) (auto simp add: keys_Map_set split: option.splits)

lemma map_of_accumulate:
  "map_of (accumulate key val xs m) k =
     runningTotal (map_of m k) (map val (filter (\<lambda>x. key x = Some k) xs))"
proof (induction xs arbitrary: m)
  case Nil
  show ?case by simp
next
  case (Cons x xs)
  show ?case
  proof (cases "key x")
    case None
    then show ?thesis using Cons [of m] by simp
  next
    case (Some k')
    show ?thesis
      using Some Cons [of "Map_set m k' (js_add (or_zero (Map_get m k')) (Num (val x)))"]
      by (simp add: map_of_Map_set Map_get_def)
  qed
qed

lemma runningTotal_Some: "\<exists>v. runningTotal (Some t) as = Some v"
  by (induction as arbitrary: t) simp_all

lemma runningTotal_None: "runningTotal None as = None \<longleftrightarrow> as = []"
proof (cases as)
  case Nil
  then show ?thesis by simp
next
  case (Cons a bs)
  from runningTotal_Some [of "js_add (or_zero None) (Num a)" bs] Cons show ?thesis by auto
qed

lemma entries_accumulate:
  "(k, v) \<in> set (accumulate key val xs []) \<longleftrightarrow>
     runningTotal None (map val (filter (\<lambda>x. key x = Some k) xs)) = Some v"
proof -
  have d: "distinct (map fst (accumulate key val xs []))"
    by (rule distinct_accumulate) simp
  have "(k, v) \<in> set (accumulate key val xs []) \<longleftrightarrow> map_of (accumulate key val xs []) k = Some v"
    using d by simp
  then show ?thesis by (simp add: map_of_accumulate)
qed

lemma or_zero_not_NaN: "or_zero t \<noteq> NaN"
  by (cases t rule: or_zero.cases) simp_all

lemma isTotal_js_add: "isTotal (js_add (or_zero t) (Num a))"
proof (cases "or_zero t")
  case NaN
  then show ?thesis by (simp add: or_zero_not_NaN)
next
  case (Num s)
  show ?thesis
  proof (cases "round64 (s + a)")
    case NaN
    then show ?thesis by (simp add: round64_not_NaN)
  next
    case (Num y)
    then have "onGrid y" by (rule round64_onGrid)
    then show ?thesis using Num \<open>or_zero t = Num s\<close> by simp
  qed (simp_all add: \<open>or_zero t = Num s\<close>)
qed simp_all

lemma isTotal_accumulate:
  "\<forall>p \<in> set m. isTotal (snd p) \<Longrightarrow> \<forall>p \<in> set (accumulate key val xs m). isTotal (snd p)"
proof (induction xs arbitrary: m)
  case Nil
  then show ?case by simp
next
  case (Cons x xs)
  show ?case
  proof (cases "key x")
    case None
    then show ?thesis using Cons by simp
  next
    case (Some k)
    let ?m = "Map_set m k (js_add (or_zero (Map_get m k)) (Num (val x)))"
    have "\<forall>p \<in> set ?m. isTotal (snd p)"
      using set_Map_set [of m k "js_add (or_zero (Map_get m k)) (Num (val x))"] Cons.prems
        isTotal_js_add by fastforce
    from Cons.IH [OF this] Some show ?thesis by simp
  qed
qed

lemma mset_insertBy: "mset (insertBy cmp x ys) = add_mset x (mset ys)"
  by (induction ys) simp_all

lemma mset_Array_sort: "mset (Array_sort cmp xs) = mset xs"
  by (induction xs) (simp_all add: Array_sort_def mset_insertBy)

lemma set_Array_sort: "set (Array_sort cmp xs) = set xs"
  using mset_Array_sort [of cmp xs] by (metis set_mset_mset)

lemma distinct_Array_sort: "distinct (map f (Array_sort cmp xs)) = distinct (map f xs)"
proof -
  have "mset (map f (Array_sort cmp xs)) = mset (map f xs)"
    by (simp add: mset_Array_sort)
  then show ?thesis by (rule mset_eq_imp_distinct_iff)
qed

lemma sorted_insertBy:
  assumes le: "\<And>x y. P x \<Longrightarrow> P y \<Longrightarrow> le0 (cmp x y) \<Longrightarrow> R x y"
    and gt: "\<And>x y. P x \<Longrightarrow> P y \<Longrightarrow> \<not> le0 (cmp x y) \<Longrightarrow> R y x"
    and tr: "\<And>x y z. P x \<Longrightarrow> P y \<Longrightarrow> P z \<Longrightarrow> R x y \<Longrightarrow> R y z \<Longrightarrow> R x z"
  shows "P x \<Longrightarrow> \<forall>y \<in> set ys. P y \<Longrightarrow> sorted_wrt R ys \<Longrightarrow> sorted_wrt R (insertBy cmp x ys)"
proof (induction ys)
  case Nil
  then show ?case by simp
next
  case (Cons y ys)
  show ?case
  proof (cases "le0 (cmp x y)")
    case True
    then have "R x y" using le Cons.prems by simp
    moreover have "\<forall>z \<in> set ys. R x z"
      using Cons.prems \<open>R x y\<close> tr [of x y] by auto
    ultimately show ?thesis using True Cons.prems by simp
  next
    case False
    then have "R y x" using gt Cons.prems by simp
    moreover have "set (insertBy cmp x ys) = insert x (set ys)"
      using mset_insertBy [of cmp x ys] by (metis set_mset_add_mset_insert set_mset_mset)
    ultimately show ?thesis using False Cons by auto
  qed
qed

lemma sorted_Array_sort:
  assumes "\<And>x y. P x \<Longrightarrow> P y \<Longrightarrow> le0 (cmp x y) \<Longrightarrow> R x y"
    and "\<And>x y. P x \<Longrightarrow> P y \<Longrightarrow> \<not> le0 (cmp x y) \<Longrightarrow> R y x"
    and "\<And>x y z. P x \<Longrightarrow> P y \<Longrightarrow> P z \<Longrightarrow> R x y \<Longrightarrow> R y z \<Longrightarrow> R x z"
  shows "\<forall>x \<in> set xs. P x \<Longrightarrow> sorted_wrt R (Array_sort cmp xs)"
proof (induction xs)
  case Nil
  show ?case by (simp add: Array_sort_def)
next
  case (Cons x xs)
  have eq: "Array_sort cmp (x # xs) = insertBy cmp x (Array_sort cmp xs)"
    by (simp add: Array_sort_def)
  have "sorted_wrt R (insertBy cmp x (Array_sort cmp xs))"
  proof (rule sorted_insertBy [of P cmp R])
    show "P x" using Cons.prems by simp
    show "\<forall>y \<in> set (Array_sort cmp xs). P y" using Cons.prems by (simp add: set_Array_sort)
    show "sorted_wrt R (Array_sort cmp xs)" using Cons by simp
  qed (use assms in blast)+
  then show ?case by (simp only: eq)
qed

lemma monthly_cmp:
  "le0 ((case x of (a, _) \<Rightarrow> \<lambda>(b, _). if a < b then Num (- 1) else Num 1) y) \<longleftrightarrow> fst x < fst y"
  by (cases x; cases y) simp

lemma le0_js_sub:
  assumes "isTotal u" "isTotal v"
  shows "le0 (js_sub v u) \<longleftrightarrow> js_ge u v"
proof (cases u; cases v)
  fix a b
  assume uv: "u = Num a" "v = Num b"
  then have g: "onGrid a" "onGrid b" using assms by simp_all
  show ?thesis
  proof (cases "b \<le> a")
    case True
    then have "le0 (round64 (b - a))" by (intro le0_round64_nonpos) simp
    then show ?thesis using True uv by simp
  next
    case False
    then have "minSubnormal \<le> b - a" using onGrid_diff [OF g] by simp
    then have "\<not> le0 (round64 (b - a))" by (rule le0_round64_pos)
    then show ?thesis using False uv by simp
  qed
qed (use assms in simp_all)

lemma js_ge_total: "isTotal u \<Longrightarrow> isTotal v \<Longrightarrow> \<not> js_ge u v \<Longrightarrow> js_ge v u"
  by (cases u; cases v) simp_all

lemma js_ge_trans: "js_ge u v \<Longrightarrow> js_ge v w \<Longrightarrow> js_ge u w"
  by (cases u; cases v; cases w) simp_all

lemma runningTotal_exact:
  "exactFrom s as \<Longrightarrow> runningTotal (Some (Num s)) as = Some (Num (s + sum_list as))"
proof (induction as arbitrary: s)
  case Nil
  show ?case by simp
next
  case (Cons a as)
  then have r: "round64 (s + a) = Num (s + a)" and e: "exactFrom (s + a) as" by simp_all
  have "js_add (or_zero (Some (Num s))) (Num a) = Num (s + a)"
    using r by (cases "s = 0") simp_all
  then show ?case using Cons.IH [OF e] by (simp add: add.assoc)
qed

lemma runningTotal_exact_None:
  assumes "exactFrom 0 as" "as \<noteq> []"
  shows "runningTotal None as = Some (Num (sum_list as))"
proof -
  from assms(2) obtain a bs where as: "as = a # bs" by (cases as) auto
  with assms(1) have "round64 a = Num a" "exactFrom a bs" by simp_all
  then show ?thesis using runningTotal_exact [of a bs] by (simp add: as)
qed

lemma sum_list_delta:
  "distinct ks \<Longrightarrow> sum_list (map (\<lambda>k. if k0 = k then c else (0::real)) ks) = (if k0 \<in> set ks then c else 0)"
  by (induction ks) auto

lemma sum_groups:
  fixes val :: "'a \<Rightarrow> real"
  assumes "distinct ks" "\<forall>x \<in> set xs. \<forall>k. key x = Some k \<longrightarrow> k \<in> set ks"
  shows "sum_list (map (\<lambda>k. sum_list (map val (filter (\<lambda>x. key x = Some k) xs))) ks) =
           sum_list (map val (filter (\<lambda>x. key x \<noteq> None) xs))"
  using assms(2)
proof (induction xs)
  case Nil
  show ?case by simp
next
  case (Cons x xs)
  have split: "sum_list (map val (filter (\<lambda>y. key y = Some k) (x # xs))) =
      (if key x = Some k then val x else 0) + sum_list (map val (filter (\<lambda>y. key y = Some k) xs))"
    for k by simp
  have "sum_list (map (\<lambda>k. sum_list (map val (filter (\<lambda>y. key y = Some k) (x # xs)))) ks) =
      sum_list (map (\<lambda>k. if key x = Some k then val x else 0) ks)
      + sum_list (map (\<lambda>k. sum_list (map val (filter (\<lambda>y. key y = Some k) xs))) ks)"
    unfolding split by (simp add: sum_list_addf)
  also have "sum_list (map (\<lambda>k. if key x = Some k then val x else 0) ks) =
      (if key x \<noteq> None then val x else 0)"
  proof (cases "key x")
    case None
    then show ?thesis by simp
  next
    case (Some k0)
    then have "k0 \<in> set ks" using Cons.prems by simp
    then show ?thesis using Some sum_list_delta [OF assms(1), of k0 "val x"] by simp
  qed
  finally show ?case using Cons by simp
qed

lemma exact_totals:
  assumes "noRounding key val xs" "(k, v) \<in> set (accumulate key val xs [])"
  shows "v = Num (sum_list (map val (filter (\<lambda>x. key x = Some k) xs)))"
proof -
  let ?g = "map val (filter (\<lambda>x. key x = Some k) xs)"
  from assms(2) have r: "runningTotal None ?g = Some v" by (simp add: entries_accumulate)
  then have ne: "?g \<noteq> []" using runningTotal_None [of ?g] by auto
  then obtain x where x: "x \<in> set xs" "key x = Some k"
    by (auto simp add: filter_empty_conv)
  with assms(1) have "exactFrom 0 ?g" by (auto simp add: noRounding_def split: option.splits)
  from runningTotal_exact_None [OF this ne] r show ?thesis by simp
qed

lemma exact_sum:
  fixes val :: "'a \<Rightarrow> real"
  assumes "noRounding key val xs" "set s = set (accumulate key val xs [])" "distinct (map fst s)"
  shows "\<exists>ts. map snd s = map Num ts
           \<and> sum_list ts = sum_list (map val (filter (\<lambda>x. key x \<noteq> None) xs))"
proof -
  let ?G = "\<lambda>k. sum_list (map val (filter (\<lambda>x. key x = Some k) xs))"
  have "snd p = Num (?G (fst p))" if "p \<in> set s" for p
    using exact_totals [OF assms(1), of "fst p" "snd p"] that assms(2) by simp
  then have m: "map snd s = map Num (map ?G (map fst s))" by simp
  have "fst ` set s = {k. \<exists>x \<in> set xs. key x = Some k}"
    using keys_accumulate [of key val xs "[]"] assms(2) by simp
  then have "\<forall>x \<in> set xs. \<forall>k. key x = Some k \<longrightarrow> k \<in> set (map fst s)" by auto
  from sum_groups [OF assms(3) this, of val] m show ?thesis by blast
qed

text \<open>
  Amounts that are whole numbers, not negative and with a sum below \<open>2 ^ 53\<close>, are added
  without rounding, whatever the keys.
\<close>

lemma exactFrom_whole:
  assumes "\<forall>a \<in> set as. \<exists>n::nat. a = of_nat n" "of_nat m + sum_list as < 2 ^ 53"
  shows "exactFrom (of_nat m) as"
  using assms
proof (induction as arbitrary: m)
  case Nil
  show ?case by simp
next
  case (Cons a as)
  then obtain n :: nat where a: "a = of_nat n" by auto
  have nonneg: "0 \<le> sum_list as"
    using Cons.prems(1) by (intro sum_list_nonneg) auto
  have "real (m + n) < 2 ^ 53" using Cons.prems(2) nonneg by (simp add: a)
  then have "m + n < 2 ^ 53" by (metis of_nat_less_iff of_nat_numeral of_nat_power)
  then have "\<bar>int (m + n)\<bar> < 2 ^ 53" by simp
  from round64_of_int [OF this] have r: "round64 (of_nat m + a) = Num (of_nat m + a)"
    by (simp add: a)
  have "exactFrom (of_nat (m + n)) as"
    using Cons.prems by (intro Cons.IH) (simp_all add: a add.assoc)
  with r show ?case by (simp add: a)
qed

lemma sum_list_filter_le:
  fixes val :: "'a \<Rightarrow> real"
  assumes "\<forall>x \<in> set xs. 0 \<le> val x"
  shows "sum_list (map val (filter P xs)) \<le> sum_list (map val xs)"
  using assms by (induction xs) (auto simp add: add_increasing)

lemma noRounding_whole:
  assumes "\<forall>x \<in> set xs. \<exists>n::nat. val x = of_nat n" "sum_list (map val xs) < 2 ^ 53"
  shows "noRounding key val xs"
proof -
  have "exactFrom 0 (map val (filter P xs))" for P
  proof -
    have "\<forall>x \<in> set xs. 0 \<le> val x" using assms(1) by auto
    from sum_list_filter_le [OF this, of P] assms(2)
    have "of_nat 0 + sum_list (map val (filter P xs)) < 2 ^ 53" by simp
    moreover have "\<forall>a \<in> set (map val (filter P xs)). \<exists>n::nat. a = of_nat n"
      using assms(1) by auto
    ultimately have "exactFrom (of_nat 0) (map val (filter P xs))" by (rule exactFrom_whole [rotated])
    then show ?thesis by simp
  qed
  then show ?thesis by (simp add: noRounding_def split: option.splits)
qed

subsection \<open>The examples\<close>

lemma tenth_nonzero: "tenth \<noteq> 0"
  by (simp add: tenth_def)

lemma round64_tenth: "round64 tenth = Num tenth"
  unfolding tenth_def
  by (rule round64_exact [of "- 4" _ 7205759403792794]) (simp_all add: power_int_minus)

lemma round64_half: "round64 (tenth + fourTenths) = Num (1 / 2)"
proof -
  have "round64 (tenth + fourTenths) =
     (let y = of_int (roundHalfEven ((tenth + fourTenths) / 2 powi (- 1 - 52))) * 2 powi (- 1 - 52)
      in if 2 powi 1024 \<le> \<bar>y\<bar> then (if 0 < tenth + fourTenths then PosInf else NegInf)
         else Num y)"
    by (rule round64_eval) (simp_all add: tenth_def fourTenths_def power_int_minus)
  also have "\<dots> = Num (1 / 2)"
    by (simp add: tenth_def fourTenths_def roundHalfEven_def power_int_minus Let_def)
  finally show ?thesis .
qed

lemma le0_tenth_half: "le0 (round64 (tenth - 1 / 2))"
  by (rule le0_round64_nonpos) (simp add: tenth_def)

lemma sums_differ: "sum_list [1 / 2, tenth] \<noteq> sum_list (map Harvest.amount dimes)"
  by (simp add: dimes_def tenth_def fourTenths_def)

lemma monthly_dimes:
  "monthlyTotals dimes =
     [\<lparr>month = ''2024-03'', MonthTotal.total = Num (1 / 2)\<rparr>,
      \<lparr>month = ''2024-04'', MonthTotal.total = Num tenth\<rparr>]"
  by (simp add: monthlyTotals_def dimes_def monthKey_def Map_get_def Array_sort_def
      round64_tenth round64_half tenth_nonzero)

lemma byType_dimes:
  "totalsByPlantType [kumara, seedling] [bedA, bedB] dimes =
     [\<lparr>name = ''Kumara'', TypeTotal.total = Num (1 / 2)\<rparr>,
      \<lparr>name = ''Seedling'', TypeTotal.total = Num tenth\<rparr>]"
  by (simp add: totalsByPlantType_def typeKey_def plantTypeById_def dimes_def
      kumara_def seedling_def bedA_def bedB_def Map_get_def Array_sort_def
      round64_tenth round64_half tenth_nonzero le0_tenth_half)

lemma byType_orphan:
  "totalsByPlantType [kumara, seedling] [bedA, bedB] (orphan # ledger) =
     [\<lparr>name = ''Kumara'', TypeTotal.total = Num 5\<rparr>,
      \<lparr>name = ''Seedling'', TypeTotal.total = Num 1\<rparr>]"
  by (simp add: totalsByPlantType_def typeKey_def plantTypeById_def ledger_def orphan_def
      april01_def march20_def march05_def kumara_def seedling_def bedA_def bedB_def
      Map_get_def Array_sort_def round64_numeral round64_1)

lemma monthly_ledger:
  "monthlyTotals ledger =
     [\<lparr>month = ''2024-03'', MonthTotal.total = Num 5\<rparr>,
      \<lparr>month = ''2024-04'', MonthTotal.total = Num 1\<rparr>]"
  by (simp add: monthlyTotals_def ledger_def april01_def march20_def march05_def monthKey_def
      Map_get_def Array_sort_def round64_numeral round64_1)

lemma noRounding_ledger:
  "noRounding (\<lambda>h. Some (take 7 (Harvest.date h))) Harvest.amount ledger"
  by (simp add: noRounding_def ledger_def april01_def march20_def march05_def
      round64_numeral round64_1)

lemma noRounding_byType:
  "noRounding (typeKey [kumara, seedling] [bedA, bedB]) Harvest.amount (orphan # ledger)"
  by (simp add: noRounding_def typeKey_def plantTypeById_def ledger_def orphan_def
      april01_def march20_def march05_def kumara_def seedling_def bedA_def bedB_def
      round64_numeral round64_1)

subsection \<open>Totals by month\<close>

text \<open>
  Claim C4, as stated: the totals of \<^verbatim>\<open>monthlyTotals\<close> sum to the sum of the amounts. It
  fails on a ledger with the amounts \<^verbatim>\<open>0.1\<close> and \<^verbatim>\<open>0.4\<close> in March and \<^verbatim>\<open>0.1\<close> in April: the
  addition \<^verbatim>\<open>0.1 + 0.4\<close> rounds to \<^verbatim>\<open>0.5\<close>, so the totals are \<^verbatim>\<open>0.5\<close> and \<^verbatim>\<open>0.1\<close>, and
  their sum is not the sum of the three amounts.
\<close>

theorem monthlyTotals_sum_counterexample:
  "monthlyTotals dimes =
     [\<lparr>month = ''2024-03'', MonthTotal.total = Num (1 / 2)\<rparr>,
      \<lparr>month = ''2024-04'', MonthTotal.total = Num tenth\<rparr>]
   \<and> sum_list [1 / 2, tenth] \<noteq> sum_list (map Harvest.amount dimes)"
  using monthly_dimes sums_differ by (rule conjI)

text \<open>
  Claim C4, amended. The months of the output of \<^verbatim>\<open>monthlyTotals\<close> are strictly
  ascending; they are the first 7 characters of the dates of the harvests; the total of a
  month is what the additions of the amounts of that month, one by one in the order of the
  list and each rounded to a double, leave; and when none of these additions rounds, the
  total of a month is the sum of its amounts and the totals sum to the sum of all amounts.
\<close>

theorem monthlyTotals_sorted_grouped:
  "sorted_wrt (<) (map month (monthlyTotals hs))
   \<and> set (map month (monthlyTotals hs)) = (\<lambda>h. take 7 (Harvest.date h)) ` set hs
   \<and> (\<forall>e \<in> set (monthlyTotals hs).
         Some (MonthTotal.total e) =
           runningTotal None
             (map Harvest.amount (filter (\<lambda>h. take 7 (Harvest.date h) = month e) hs)))
   \<and> (noRounding (\<lambda>h. Some (take 7 (Harvest.date h))) Harvest.amount hs \<longrightarrow>
        (\<forall>e \<in> set (monthlyTotals hs).
           MonthTotal.total e =
             Num (sum_list
               (map Harvest.amount (filter (\<lambda>h. take 7 (Harvest.date h) = month e) hs))))
        \<and> (\<exists>ts. map MonthTotal.total (monthlyTotals hs) = map Num ts
              \<and> sum_list ts = sum_list (map Harvest.amount hs)))"
proof -
  let ?key = "\<lambda>h. Some (take 7 (Harvest.date h))"
  let ?cmp = "\<lambda>(a, _) (b, _). if (a::string) < b then Num (- 1) else Num 1"
  let ?r = "accumulate ?key Harvest.amount hs []"
  let ?s = "Array_sort ?cmp ?r"
  have out: "monthlyTotals hs =
      map (\<lambda>(month, total). \<lparr>month = month, MonthTotal.total = total\<rparr>) ?s"
    by (simp add: monthlyTotals_def monthlyLoop_accumulate monthKey_def)
  have months: "map month (monthlyTotals hs) = map fst ?s"
    unfolding out by (simp add: case_prod_beta)
  have totals: "map MonthTotal.total (monthlyTotals hs) = map snd ?s"
    unfolding out by (simp add: case_prod_beta)
  have mem: "(month e, MonthTotal.total e) \<in> set ?r" if "e \<in> set (monthlyTotals hs)" for e
    using that unfolding out by (auto simp add: set_Array_sort)
  have "sorted_wrt (\<lambda>x y. fst x \<le> fst y) ?s"
  proof (rule sorted_Array_sort [of "\<lambda>_. True"])
    fix x y :: "string \<times> jsnum"
    show "le0 (?cmp x y) \<Longrightarrow> fst x \<le> fst y" by (simp add: monthly_cmp)
    show "\<not> le0 (?cmp x y) \<Longrightarrow> fst y \<le> fst x" by (simp add: monthly_cmp)
  qed auto
  then have "sorted (map fst ?s)" by (simp add: sorted_wrt_map)
  moreover have d: "distinct (map fst ?s)"
    by (simp add: distinct_Array_sort distinct_accumulate)
  ultimately have c1: "sorted_wrt (<) (map month (monthlyTotals hs))"
    by (simp add: months strict_sorted_iff)
  have "set (map fst ?s) = fst ` set ?r"
    by (simp add: set_Array_sort)
  then have c2: "set (map month (monthlyTotals hs)) = (\<lambda>h. take 7 (Harvest.date h)) ` set hs"
    by (auto simp add: months keys_accumulate)
  have c3: "Some (MonthTotal.total e) =
      runningTotal None
        (map Harvest.amount (filter (\<lambda>h. take 7 (Harvest.date h) = month e) hs))"
    if "e \<in> set (monthlyTotals hs)" for e
    using mem [OF that] by (simp add: entries_accumulate)
  have c4: "MonthTotal.total e =
      Num (sum_list (map Harvest.amount (filter (\<lambda>h. take 7 (Harvest.date h) = month e) hs)))"
    if "noRounding ?key Harvest.amount hs" "e \<in> set (monthlyTotals hs)" for e
    using exact_totals [OF that(1) mem [OF that(2)]] by simp
  have c5: "\<exists>ts. map MonthTotal.total (monthlyTotals hs) = map Num ts
      \<and> sum_list ts = sum_list (map Harvest.amount hs)"
    if "noRounding ?key Harvest.amount hs"
    using exact_sum [OF that _ d] by (simp add: totals set_Array_sort)
  from c1 c2 c3 c4 c5 show ?thesis by blast
qed

theorem monthlyTotals_sorted_grouped_witness:
  "noRounding (\<lambda>h. Some (take 7 (Harvest.date h))) Harvest.amount ledger
   \<and> monthlyTotals ledger =
       [\<lparr>month = ''2024-03'', MonthTotal.total = Num 5\<rparr>,
        \<lparr>month = ''2024-04'', MonthTotal.total = Num 1\<rparr>]
   \<and> sorted_wrt (<) (map month (monthlyTotals ledger))
   \<and> (\<exists>ts. map MonthTotal.total (monthlyTotals ledger) = map Num ts \<and> sum_list ts = 6)"
proof -
  have a: "sum_list (map Harvest.amount ledger) = 6"
    by (simp add: ledger_def april01_def march20_def march05_def)
  from monthlyTotals_sorted_grouped [of ledger] noRounding_ledger monthly_ledger a
  show ?thesis by simp
qed

subsection \<open>Totals by plant type\<close>

lemma names_totalsByPlantType:
  "set (map name (totalsByPlantType pts pls hs)) = {k. \<exists>h \<in> set hs. typeKey pts pls h = Some k}"
proof -
  let ?s = "Array_sort (\<lambda>a b :: string \<times> jsnum. js_sub (snd b) (snd a))
      (accumulate (typeKey pts pls) Harvest.amount hs [])"
  have "map name (totalsByPlantType pts pls hs) = map fst ?s"
    by (simp add: totalsByPlantType_def byTypeLoop_accumulate case_prod_beta)
  then show ?thesis by (simp add: set_Array_sort keys_accumulate)
qed

text \<open>
  Claim C5, as stated: the totals of \<^verbatim>\<open>totalsByPlantType\<close> sum to the sum of the amounts
  of all harvests of the input. It fails on a ledger with a harvest whose planting is
  gone: the loop skips that harvest (\<^verbatim>\<open>if (!planting) continue\<close>), the totals sum to 6
  and the amounts to 10. It fails as well on the ledger with the amounts \<^verbatim>\<open>0.1\<close>, \<^verbatim>\<open>0.1\<close>
  and \<^verbatim>\<open>0.4\<close>, whose plantings are all found: \<^verbatim>\<open>0.1 + 0.4\<close> rounds to \<^verbatim>\<open>0.5\<close>.
\<close>

theorem totalsByPlantType_sum_counterexample:
  "totalsByPlantType [kumara, seedling] [bedA, bedB] (orphan # ledger) =
     [\<lparr>name = ''Kumara'', TypeTotal.total = Num 5\<rparr>,
      \<lparr>name = ''Seedling'', TypeTotal.total = Num 1\<rparr>]
   \<and> sum_list [5, 1] \<noteq> sum_list (map Harvest.amount (orphan # ledger))
   \<and> filter (resolves [bedA, bedB]) dimes = dimes
   \<and> totalsByPlantType [kumara, seedling] [bedA, bedB] dimes =
       [\<lparr>name = ''Kumara'', TypeTotal.total = Num (1 / 2)\<rparr>,
        \<lparr>name = ''Seedling'', TypeTotal.total = Num tenth\<rparr>]
   \<and> sum_list [1 / 2, tenth] \<noteq> sum_list (map Harvest.amount dimes)"
proof -
  have 1: "sum_list [5, 1] \<noteq> sum_list (map Harvest.amount (orphan # ledger))"
    by (simp add: ledger_def orphan_def april01_def march20_def march05_def)
  have 2: "filter (resolves [bedA, bedB]) dimes = dimes"
    by (simp add: resolves_def dimes_def bedA_def bedB_def)
  from byType_orphan 1 2 byType_dimes sums_differ show ?thesis by blast
qed

text \<open>
  Claim C5, amended. The output of \<^verbatim>\<open>totalsByPlantType\<close> is sorted descending by total;
  its names differ from one another and are the keys of the harvests whose planting is
  found; the total of a name is what the additions of the amounts with that key, one by
  one in the order of the list and each rounded to a double, leave; and when none of these
  additions rounds, the totals sum to the sum of the amounts of the harvests whose planting
  is found.
\<close>

theorem totalsByPlantType_sorted_grouped:
  "sorted_wrt (\<lambda>a b. js_ge (TypeTotal.total a) (TypeTotal.total b)) (totalsByPlantType pts pls hs)
   \<and> distinct (map name (totalsByPlantType pts pls hs))
   \<and> set (map name (totalsByPlantType pts pls hs)) = {k. \<exists>h \<in> set hs. typeKey pts pls h = Some k}
   \<and> (\<forall>e \<in> set (totalsByPlantType pts pls hs).
         Some (TypeTotal.total e) =
           runningTotal None
             (map Harvest.amount (filter (\<lambda>h. typeKey pts pls h = Some (name e)) hs)))
   \<and> (noRounding (typeKey pts pls) Harvest.amount hs \<longrightarrow>
        (\<exists>ts. map TypeTotal.total (totalsByPlantType pts pls hs) = map Num ts
           \<and> sum_list ts = sum_list (map Harvest.amount (filter (resolves pls) hs))))"
proof -
  let ?cmp = "\<lambda>a b :: string \<times> jsnum. js_sub (snd b) (snd a)"
  let ?r = "accumulate (typeKey pts pls) Harvest.amount hs []"
  let ?s = "Array_sort ?cmp ?r"
  have out: "totalsByPlantType pts pls hs =
      map (\<lambda>(name, total). \<lparr>name = name, TypeTotal.total = total\<rparr>) ?s"
    by (simp add: totalsByPlantType_def byTypeLoop_accumulate)
  have names: "map name (totalsByPlantType pts pls hs) = map fst ?s"
    unfolding out by (simp add: case_prod_beta)
  have totals: "map TypeTotal.total (totalsByPlantType pts pls hs) = map snd ?s"
    unfolding out by (simp add: case_prod_beta)
  have mem: "(name e, TypeTotal.total e) \<in> set ?r" if "e \<in> set (totalsByPlantType pts pls hs)" for e
    using that unfolding out by (auto simp add: set_Array_sort)
  have tot: "\<forall>p \<in> set ?r. isTotal (snd p)"
    by (rule isTotal_accumulate) simp
  have "sorted_wrt (\<lambda>x y. js_ge (snd x) (snd y)) ?s"
  proof (rule sorted_Array_sort [of "\<lambda>p. isTotal (snd p)"])
    fix x y z :: "string \<times> jsnum"
    show "isTotal (snd x) \<Longrightarrow> isTotal (snd y) \<Longrightarrow> le0 (?cmp x y) \<Longrightarrow> js_ge (snd x) (snd y)"
      by (simp add: le0_js_sub)
    show "isTotal (snd x) \<Longrightarrow> isTotal (snd y) \<Longrightarrow> \<not> le0 (?cmp x y) \<Longrightarrow> js_ge (snd y) (snd x)"
      using js_ge_total [of "snd x" "snd y"] by (simp add: le0_js_sub)
    show "js_ge (snd x) (snd y) \<Longrightarrow> js_ge (snd y) (snd z) \<Longrightarrow> js_ge (snd x) (snd z)"
      by (rule js_ge_trans)
    show "\<forall>p \<in> set ?r. isTotal (snd p)" by (rule tot)
  qed
  then have c1: "sorted_wrt (\<lambda>a b. js_ge (TypeTotal.total a) (TypeTotal.total b))
      (totalsByPlantType pts pls hs)"
    unfolding out by (simp add: sorted_wrt_map case_prod_beta)
  have d: "distinct (map fst ?s)"
    by (simp add: distinct_Array_sort distinct_accumulate)
  then have c2: "distinct (map name (totalsByPlantType pts pls hs))" by (simp only: names)
  have c3: "set (map name (totalsByPlantType pts pls hs)) =
      {k. \<exists>h \<in> set hs. typeKey pts pls h = Some k}"
    by (rule names_totalsByPlantType)
  have c4: "Some (TypeTotal.total e) =
      runningTotal None
        (map Harvest.amount (filter (\<lambda>h. typeKey pts pls h = Some (name e)) hs))"
    if "e \<in> set (totalsByPlantType pts pls hs)" for e
    using mem [OF that] by (simp add: entries_accumulate)
  have "typeKey pts pls x \<noteq> None \<longleftrightarrow> resolves pls x" for x
    by (simp add: typeKey_def resolves_def split: option.splits property.splits)
  then have k: "filter (\<lambda>x. typeKey pts pls x \<noteq> None) hs = filter (resolves pls) hs"
    by (intro filter_cong) simp_all
  have c5: "\<exists>ts. map TypeTotal.total (totalsByPlantType pts pls hs) = map Num ts
      \<and> sum_list ts = sum_list (map Harvest.amount (filter (resolves pls) hs))"
    if "noRounding (typeKey pts pls) Harvest.amount hs"
    using exact_sum [OF that _ d] unfolding totals k by (simp add: set_Array_sort)
  from c1 c2 c3 c4 c5 show ?thesis by blast
qed

theorem totalsByPlantType_sorted_grouped_witness:
  "noRounding (typeKey [kumara, seedling] [bedA, bedB]) Harvest.amount (orphan # ledger)
   \<and> totalsByPlantType [kumara, seedling] [bedA, bedB] (orphan # ledger) =
       [\<lparr>name = ''Kumara'', TypeTotal.total = Num 5\<rparr>,
        \<lparr>name = ''Seedling'', TypeTotal.total = Num 1\<rparr>]
   \<and> filter (resolves [bedA, bedB]) (orphan # ledger) = ledger
   \<and> (\<exists>ts. map TypeTotal.total
               (totalsByPlantType [kumara, seedling] [bedA, bedB] (orphan # ledger)) = map Num ts
          \<and> sum_list ts = sum_list (map Harvest.amount ledger))"
proof -
  have f: "filter (resolves [bedA, bedB]) (orphan # ledger) = ledger"
    by (simp add: resolves_def ledger_def orphan_def april01_def march20_def march05_def
        bedA_def bedB_def)
  from totalsByPlantType_sorted_grouped [of "[kumara, seedling]" "[bedA, bedB]" "orphan # ledger"]
    noRounding_byType byType_orphan f
  show ?thesis by simp
qed

section \<open>Dangling references\<close>

text \<open>
  A reference that finds neither an own property nor an inherited member is harmless:
  \<^verbatim>\<open>phaseFor\<close> returns \<^verbatim>\<open>null\<close>; removing a plant type leaves the plantings and the
  harvests as they are, and a planting of the removed type has no estimate afterwards if
  the identifier is not the name of an inherited member; a harvest whose planting is found
  while the plant type of that planting is not is counted under \<^verbatim>\<open>Unknown\<close>.
\<close>

lemma plantTypeById_removeType:
  "map_of Object_prototype i = None \<Longrightarrow>
     plantTypeById (filter (\<lambda>p. PlantType.id p \<noteq> i) pts) i = Undefined"
proof -
  assume a: "map_of Object_prototype i = None"
  have "map_of (rev (map (\<lambda>p. (PlantType.id p, p)) (filter (\<lambda>p. PlantType.id p \<noteq> i) pts))) i = None"
    by (auto simp add: map_of_eq_None_iff)
  with a show ?thesis by (simp add: plantTypeById_def)
qed

lemma dangling_own_lookup:
  "(plantTypeById pts (plantTypeId p) = Undefined \<longrightarrow> phaseFor h pts p = Inr None)
   \<and> plantings (removeType i s) = plantings s
   \<and> harvests (removeType i s) = harvests s
   \<and> (plantTypeId p = i \<and> map_of Object_prototype i = None \<longrightarrow>
        phaseFor h (plantTypes (removeType i s)) p = Inr None)
   \<and> (hv \<in> set hs \<and> find (\<lambda>p. Planting.id p = plantingId hv) pls = Some pl
        \<and> plantTypeById pts (plantTypeId pl) = Undefined \<longrightarrow>
        typeKey pts pls hv = Some ''Unknown''
        \<and> ''Unknown'' \<in> set (map name (totalsByPlantType pts pls hs)))"
proof -
  have c1: "plantTypeById pts (plantTypeId p) = Undefined \<longrightarrow> phaseFor h pts p = Inr None"
    by (simp add: phaseFor_def)
  have c2: "plantings (removeType i s) = plantings s" "harvests (removeType i s) = harvests s"
    by (simp_all add: removeType_def)
  have c3: "plantTypeId p = i \<and> map_of Object_prototype i = None \<longrightarrow>
      phaseFor h (plantTypes (removeType i s)) p = Inr None"
    by (auto simp add: phaseFor_def removeType_def plantTypeById_removeType)
  have c4: "typeKey pts pls hv = Some ''Unknown''
      \<and> ''Unknown'' \<in> set (map name (totalsByPlantType pts pls hs))"
    if hv: "hv \<in> set hs" and f: "find (\<lambda>p. Planting.id p = plantingId hv) pls = Some pl"
      and d: "plantTypeById pts (plantTypeId pl) = Undefined"
  proof -
    have key: "typeKey pts pls hv = Some ''Unknown''"
      using f d by (simp add: typeKey_def)
    from names_totalsByPlantType [of pts pls hs] key hv show ?thesis by auto
  qed
  from c1 c2 c3 c4 show ?thesis by blast
qed

text \<open>
  Claim C6. A planting whose plant type is not in the catalogue should have no estimate,
  and its harvests should be counted under \<^verbatim>\<open>Unknown\<close>, without an error. For the
  identifier \<^verbatim>\<open>constructor\<close>, which no entry of the catalogue has, \<^verbatim>\<open>plantTypeById\<close> yields the
  inherited function \<^verbatim>\<open>Object\<close>: \<^verbatim>\<open>phaseFor\<close> throws a \<^verbatim>\<open>RangeError\<close>, and
  \<^verbatim>\<open>totalsByPlantType\<close> counts the harvest under the name \<^verbatim>\<open>Object\<close>.
\<close>

theorem dangling_prototype_member:
  "plantTypeById [kumara, seedling] (plantTypeId bedC) = Inherited (Some ''Object'')
   \<and> phaseFor (exampleHost ''2024-03-16'') [kumara, seedling] bedC = Inl RangeError
   \<and> totalsByPlantType [kumara, seedling] [bedC] [may01] =
       [\<lparr>name = ''Object'', TypeTotal.total = Num 1\<rparr>]"
  by (simp add: phaseFor_def totalsByPlantType_def typeKey_def plantTypeById_def
      Object_prototype_def kumara_def seedling_def bedC_def may01_def Map_get_def
      Array_sort_def round64_1)

section \<open>Properties of import and export\<close>

lemma getProp_payloadField: "data \<noteq> JNull \<Longrightarrow> getProp data k = Inr (payloadField data k)"
  by (cases data) (simp_all add: payloadField_def)

lemma importJSON_accept:
  assumes "payloadField data ''plantTypes'' = Some pts" "truthy pts"
    and "payloadField data ''plantings'' = Some pls" "truthy pls"
    and "payloadField data ''harvests'' = Some hvs" "truthy hvs"
  shows "importJSON (Inr data) c =
           (\<lparr>plantTypes = pts, plantings = pls, harvests = hvs\<rparr>, ImportSuccessful)"
proof -
  have "data \<noteq> JNull" using assms(1) by (auto simp add: payloadField_def)
  then show ?thesis using assms by (simp add: importJSON_def getProp_payloadField)
qed

lemma importJSON_reject:
  assumes "\<not> (truthyField data ''plantTypes'' \<and> truthyField data ''plantings''
              \<and> truthyField data ''harvests'')"
  shows "fst (importJSON (Inr data) c) = c \<and> snd (importJSON (Inr data) c) \<noteq> ImportSuccessful"
proof (cases "data = JNull")
  case True
  then show ?thesis by (simp add: importJSON_def)
next
  case False
  then show ?thesis using assms
    by (auto simp add: importJSON_def getProp_payloadField truthyField_def split: option.splits)
qed

text \<open>
  Claim C7, as stated: a payload is accepted exactly when it contains the three fields.
  A payload that contains the three fields, the field \<^verbatim>\<open>harvests\<close> being \<^verbatim>\<open>null\<close>, is
  rejected: the condition of \<^verbatim>\<open>importJSON\<close> tests the values of the fields for
  truthiness.
\<close>

theorem importJSON_presence_counterexample:
  "containsField nullHarvestsPayload ''plantTypes''
   \<and> containsField nullHarvestsPayload ''plantings''
   \<and> containsField nullHarvestsPayload ''harvests''
   \<and> importJSON (Inr nullHarvestsPayload) (json_of_collections garden)
       = (json_of_collections garden, InvalidBackupFile)"
  by (simp add: containsField_def payloadField_def nullHarvestsPayload_def importJSON_def)

text \<open>
  Claim C7, amended. An import is accepted exactly when the text parses and the three
  fields \<^verbatim>\<open>plantTypes\<close>, \<^verbatim>\<open>plantings\<close> and \<^verbatim>\<open>harvests\<close> of the payload are present with
  truthy values (the values are not inspected any further); when it is not accepted the
  three collections are unchanged; when it is accepted the three collections are the
  values of the three fields.
\<close>

theorem importJSON_accepts_iff:
  "(snd (importJSON parsed c) = ImportSuccessful \<longleftrightarrow>
      (\<exists>data. parsed = Inr data \<and> truthyField data ''plantTypes''
          \<and> truthyField data ''plantings'' \<and> truthyField data ''harvests''))
   \<and> (snd (importJSON parsed c) \<noteq> ImportSuccessful \<longrightarrow> fst (importJSON parsed c) = c)
   \<and> (snd (importJSON parsed c) = ImportSuccessful \<longrightarrow>
        (\<exists>data. parsed = Inr data
          \<and> payloadField data ''plantTypes'' = Some (plantTypes (fst (importJSON parsed c)))
          \<and> payloadField data ''plantings'' = Some (plantings (fst (importJSON parsed c)))
          \<and> payloadField data ''harvests'' = Some (harvests (fst (importJSON parsed c)))))"
proof (cases parsed)
  case (Inl e)
  then show ?thesis by (simp add: importJSON_def)
next
  case (Inr data)
  show ?thesis
  proof (cases "truthyField data ''plantTypes'' \<and> truthyField data ''plantings''
              \<and> truthyField data ''harvests''")
    case True
    then obtain pts pls hvs where
      f: "payloadField data ''plantTypes'' = Some pts" "truthy pts"
         "payloadField data ''plantings'' = Some pls" "truthy pls"
         "payloadField data ''harvests'' = Some hvs" "truthy hvs"
      by (auto simp add: truthyField_def split: option.splits)
    from importJSON_accept [OF f] True f Inr show ?thesis by simp
  next
    case False
    from importJSON_reject [OF False] False Inr show ?thesis by simp
  qed
qed

theorem importJSON_accepts_iff_witness:
  "importJSON (Inr loosePayload) (json_of_collections garden) =
     (\<lparr>plantTypes = JNum 1, plantings = JStr ''x'', harvests = JBool True\<rparr>, ImportSuccessful)
   \<and> fst (importJSON (Inr missingHarvestsPayload) (json_of_collections garden))
       = json_of_collections garden
   \<and> fst (importJSON (Inl SyntaxError) (json_of_collections garden)) = json_of_collections garden"
proof -
  let ?c = "json_of_collections garden"
  have a: "truthyField loosePayload ''plantTypes'' \<and> truthyField loosePayload ''plantings''
      \<and> truthyField loosePayload ''harvests''"
    by (simp add: truthyField_def payloadField_def loosePayload_def)
  have b: "\<not> truthyField missingHarvestsPayload ''harvests''"
    by (simp add: truthyField_def payloadField_def missingHarvestsPayload_def)
  have f: "payloadField loosePayload ''plantTypes'' = Some (JNum 1)"
    "payloadField loosePayload ''plantings'' = Some (JStr ''x'')"
    "payloadField loosePayload ''harvests'' = Some (JBool True)"
    by (simp_all add: payloadField_def loosePayload_def)
  from importJSON_accepts_iff [of "Inr loosePayload" ?c] a f
  have 1: "importJSON (Inr loosePayload) ?c =
     (\<lparr>plantTypes = JNum 1, plantings = JStr ''x'', harvests = JBool True\<rparr>, ImportSuccessful)"
    by (cases "importJSON (Inr loosePayload) ?c"; cases "fst (importJSON (Inr loosePayload) ?c)") auto
  from importJSON_accepts_iff [of "Inr missingHarvestsPayload" ?c] b
  have 2: "fst (importJSON (Inr missingHarvestsPayload) ?c) = ?c" by auto
  from importJSON_accepts_iff [of "Inl SyntaxError" ?c]
  have 3: "fst (importJSON (Inl SyntaxError) ?c) = ?c" by auto
  from 1 2 3 show ?thesis by simp
qed

lemma inj_json_of_Unit: "json_of_Unit a = json_of_Unit b \<Longrightarrow> a = b"
  by (cases a; cases b) simp_all

lemma inj_json_of_PlantType: "json_of_PlantType a = json_of_PlantType b \<Longrightarrow> a = b"
  by (cases a; cases b) (auto simp add: json_of_PlantType_def dest: inj_json_of_Unit)

lemma inj_json_of_Planting: "json_of_Planting a = json_of_Planting b \<Longrightarrow> a = b"
  by (cases a; cases b) (auto simp add: json_of_Planting_def)

lemma inj_json_of_Harvest: "json_of_Harvest a = json_of_Harvest b \<Longrightarrow> a = b"
  by (cases a; cases b) (auto simp add: json_of_Harvest_def dest: inj_json_of_Unit)

lemma inj_json_of:
  "inj json_of_PlantType" "inj json_of_Planting" "inj json_of_Harvest"
  by (auto intro!: injI dest: inj_json_of_PlantType inj_json_of_Planting inj_json_of_Harvest)

text \<open>
  Claim C8. Importing the payload that \<^verbatim>\<open>exportJSON\<close> builds from three collections is
  accepted, whatever the collections at the time of the import, and leaves exactly the
  exported collections; the value of a state determines its three collections, element by
  element and in order.
\<close>

theorem export_import_roundtrip:
  "importJSON (Inr (exportJSON (json_of_collections s) exportedAt)) c =
     (json_of_collections s, ImportSuccessful)
   \<and> (json_of_collections s = json_of_collections s' \<longrightarrow>
        plantTypes s = plantTypes s' \<and> plantings s = plantings s' \<and> harvests s = harvests s')"
proof
  show "importJSON (Inr (exportJSON (json_of_collections s) exportedAt)) c =
     (json_of_collections s, ImportSuccessful)"
    by (simp add: importJSON_def exportJSON_def json_of_collections_def)
  show "json_of_collections s = json_of_collections s' \<longrightarrow>
        plantTypes s = plantTypes s' \<and> plantings s = plantings s' \<and> harvests s = harvests s'"
    by (simp add: json_of_collections_def inj_map_eq_map inj_json_of)
qed

theorem export_import_roundtrip_witness:
  "importJSON (Inr (exportJSON (json_of_collections garden) ''2024-04-10T00:00:00.000Z''))
       (json_of_collections (garden\<lparr>plantings := [], harvests := []\<rparr>))
     = (json_of_collections garden, ImportSuccessful)
   \<and> json_of_collections garden \<noteq> json_of_collections (garden\<lparr>plantings := [bedB, bedA]\<rparr>)"
proof -
  have "plantings garden \<noteq> plantings (garden\<lparr>plantings := [bedB, bedA]\<rparr>)"
    by (simp add: garden_def bedA_def bedB_def)
  with export_import_roundtrip [of garden "''2024-04-10T00:00:00.000Z''"
      "json_of_collections (garden\<lparr>plantings := [], harvests := []\<rparr>)"
      "garden\<lparr>plantings := [bedB, bedA]\<rparr>"]
  show ?thesis by blast
qed

section \<open>Properties of the actions\<close>

text \<open>
  Claim C9. With a harvest target open, \<^verbatim>\<open>logHarvest\<close> changes nothing when the amount is
  0 or negative; when the amount is positive it puts one new record, built from the input
  and the target, in front of the harvests, leaves the plant types and the plantings as
  they are, and closes the target.
\<close>

theorem logHarvest_amount:
  assumes "harvestTarget s = Some target"
  shows "(HarvestInput.amount (harvestInput s) \<le> 0 \<longrightarrow> logHarvest uid s = s)
     \<and> (0 < HarvestInput.amount (harvestInput s) \<longrightarrow>
          harvests (logHarvest uid s) =
            \<lparr>Harvest.id = uid, plantingId = Planting.id target,
             date = HarvestInput.date (harvestInput s),
             amount = HarvestInput.amount (harvestInput s),
             unit = HarvestInput.unit (harvestInput s),
             notes = HarvestInput.notes (harvestInput s)\<rparr> # harvests s
          \<and> plantTypes (logHarvest uid s) = plantTypes s
          \<and> plantings (logHarvest uid s) = plantings s
          \<and> harvestTarget (logHarvest uid s) = None
          \<and> harvestInput (logHarvest uid s) = harvestInput s)"
  using assms by (auto simp add: logHarvest_def Let_def)

theorem logHarvest_amount_witness:
  "harvestTarget garden = Some bedA
   \<and> harvests (logHarvest ''h-5'' garden) =
       \<lparr>Harvest.id = ''h-5'', plantingId = ''pl-a'', date = ''2024-04-10'', amount = 5 / 2,
        unit = kg, notes = ''first pick''\<rparr> # ledger
   \<and> logHarvest ''h-5'' (garden\<lparr>harvestInput := (harvestInput garden)\<lparr>amount := 0\<rparr>\<rparr>)
       = garden\<lparr>harvestInput := (harvestInput garden)\<lparr>amount := 0\<rparr>\<rparr>"
proof -
  let ?zero = "garden\<lparr>harvestInput := (harvestInput garden)\<lparr>amount := 0\<rparr>\<rparr>"
  have t: "harvestTarget garden = Some bedA" by (simp add: garden_def)
  have t0: "harvestTarget ?zero = Some bedA" by (simp add: garden_def)
  from logHarvest_amount [OF t, of "''h-5''"] logHarvest_amount [OF t0, of "''h-5''"] t
  show ?thesis by (simp add: garden_def bedA_def)
qed

text \<open>
  Claim C10. \<^verbatim>\<open>toggleArchive\<close> keeps the length and the order of the plantings, changes
  a planting only by negating the \<open>archived\<close> flag and only if it has the given id,
  leaves the rest of the state as it is, and applied twice gives the state back.
\<close>

theorem toggleArchive_involution:
  "length (plantings (toggleArchive i s)) = length (plantings s)
   \<and> (\<forall>n < length (plantings s).
         plantings (toggleArchive i s) ! n =
           (if Planting.id (plantings s ! n) = i
            then (plantings s ! n)\<lparr>archived := \<not> archived (plantings s ! n)\<rparr>
            else plantings s ! n))
   \<and> plantTypes (toggleArchive i s) = plantTypes s
   \<and> harvests (toggleArchive i s) = harvests s
   \<and> harvestTarget (toggleArchive i s) = harvestTarget s
   \<and> harvestInput (toggleArchive i s) = harvestInput s
   \<and> toggleArchive i (toggleArchive i s) = s"
proof -
  let ?f = "\<lambda>p. if Planting.id p = i then p\<lparr>archived := \<not> archived p\<rparr> else p"
  have ff: "?f (?f p) = p" for p :: Planting
    by simp
  have "map ?f (map ?f ps) = ps" for ps :: "Planting list"
    by (induction ps) (simp_all only: list.map ff)
  then have twice: "toggleArchive i (toggleArchive i s) = s"
    by (simp only: toggleArchive_def collections.simps collections.update_convs
        collections.select_convs app.simps) simp
  show ?thesis
    using twice by (simp add: toggleArchive_def)
qed

theorem toggleArchive_involution_witness:
  "plantings (toggleArchive ''pl-a'' garden) = [bedA\<lparr>archived := True\<rparr>, bedB]
   \<and> toggleArchive ''pl-a'' (toggleArchive ''pl-a'' garden) = garden"
proof -
  have p: "plantings garden = [bedA, bedB]" by (simp add: garden_def)
  from toggleArchive_involution [of "''pl-a''" garden]
  have len: "length (plantings (toggleArchive ''pl-a'' garden)) = length [bedA, bedB]"
    and nth: "\<And>n. n < length [bedA, bedB] \<Longrightarrow> plantings (toggleArchive ''pl-a'' garden) ! n =
           (if Planting.id ([bedA, bedB] ! n) = ''pl-a''
            then ([bedA, bedB] ! n)\<lparr>archived := \<not> archived ([bedA, bedB] ! n)\<rparr>
            else [bedA, bedB] ! n)"
    and twice: "toggleArchive ''pl-a'' (toggleArchive ''pl-a'' garden) = garden"
    unfolding p by blast+
  have "plantings (toggleArchive ''pl-a'' garden) ! n = [bedA\<lparr>archived := True\<rparr>, bedB] ! n"
    if "n < length [bedA, bedB]" for n
    using nth [OF that] that by (cases n) (simp_all add: bedA_def bedB_def)
  with len have "plantings (toggleArchive ''pl-a'' garden) = [bedA\<lparr>archived := True\<rparr>, bedB]"
    by (intro nth_equalityI) simp_all
  with twice show ?thesis by simp
qed

end
